theory Spec2Isabelle
  imports Main "HOL-Library.Word"
begin

unbundle bit_operations_syntax

section \<open>Data model\<close>

text \<open>
  The development embeds \<^verbatim>\<open>pyhatchbabyrest/pyhatchbabyrestasync.py\<close>: the guarded
  BLE client \<^verbatim>\<open>SaveConnectBleakClient\<close> and the session class
  \<^verbatim>\<open>PyHatchBabyRestAsync\<close>. Every method is a function from the state before the
  call to a result and the state after it; an exception is the \<open>Inl\<close> result, and the
  state returned with it is the state the exception leaves behind.
\<close>

type_synonym byte = "8 word"

text \<open>The exceptions the code can raise. \<open>BleakError\<close> is a failure of the transport.\<close>

datatype error = RuntimeError | AssertionError | IndexError | ValueError | AttributeError | BleakError

text \<open>
  \<^verbatim>\<open>constants.py\<close> is not part of the sources at hand, so its values are parameters:
  the manufacturer identifier and the values of the enumeration
  \<^verbatim>\<open>PyHatchBabyRestSound\<close> (an integer enumeration: the code formats a member with
  \<^verbatim>\<open>{:02x}\<close> and builds one from an integer).
\<close>

record constants =
  BT_MANUFACTURER_ID :: nat
  sound_values :: "int list"

text \<open>A \<^verbatim>\<open>BLEDevice\<close>: its address, its name and the keys of
  \<^verbatim>\<open>metadata["manufacturer_data"]\<close>.\<close>

record ble_device =
  dev_address :: string
  dev_name :: string
  manufacturer_data :: "nat list"

text \<open>A \<^verbatim>\<open>SaveConnectBleakClient\<close>: the connection state of the underlying
  \<^verbatim>\<open>BleakClient\<close> and the attribute \<^verbatim>\<open>was_open\<close> (class default \<^verbatim>\<open>False\<close>).\<close>

record save_client =
  is_connected :: bool
  was_open :: bool

text \<open>What the transport is asked to do, in order. \<open>Sleep\<close> carries milliseconds.\<close>

datatype event = Connect | Disconnect | Read | Write string | Sleep nat

text \<open>
  A wall-clock reading (\<^verbatim>\<open>datetime.now()\<close>), and the two kinds of \<^verbatim>\<open>datetime\<close> the
  attribute \<^verbatim>\<open>time\<close> can hold: \<^verbatim>\<open>datetime.fromtimestamp(t, UTC)\<close> and a
  wall-clock value.
\<close>

record civil =
  year :: nat
  month :: nat
  day :: nat
  hour :: nat
  minute :: nat
  second :: nat

datatype datetime = FromTimestamp nat | Naive civil

text \<open>
  The session object together with its surroundings. The attributes \<^verbatim>\<open>time\<close>,
  \<^verbatim>\<open>color\<close>, \<^verbatim>\<open>brightness\<close>, \<^verbatim>\<open>sound\<close>, \<^verbatim>\<open>volume\<close> and \<^verbatim>\<open>power\<close> do not exist
  until they are first assigned (\<open>None\<close>). A scanner is the list of devices it will
  discover, in order. The surroundings are: \<open>radio\<close>, what a fresh \<^verbatim>\<open>BleakScanner()\<close>
  discovers; \<open>feed\<close>, the replies of the successive reads of the feedback
  characteristic (an exhausted feed is a transport failure); \<open>trace\<close>, the transport
  operations performed so far; \<open>clock\<close> and \<open>clock_reads\<close>, the successive values of
  \<^verbatim>\<open>datetime.now()\<close> and how many were taken.
\<close>

record session =
  scanner :: "ble_device list option"
  auto_refresh :: bool
  device :: "ble_device option"
  address :: "string option"
  priv_client :: "save_client option"
  time :: "datetime option"
  color :: "(int \<times> int \<times> int) option"
  brightness :: "int option"
  sound :: "int option"
  volume :: "int option"
  power_flag :: "bool option"
  radio :: "ble_device list"
  feed :: "(error + byte list) list"
  trace :: "event list"
  clock :: "nat \<Rightarrow> civil"
  clock_reads :: nat

section \<open>Python's number formatting and parsing\<close>

definition hexdigit :: "nat \<Rightarrow> char" where
  "hexdigit d = ''0123456789abcdef'' ! d"

text \<open>\<^verbatim>\<open>format(n, "x")\<close> for \<open>n \<ge> 0\<close>: lowercase digits, no padding.\<close>

fun hex_digits :: "nat \<Rightarrow> string" where
  "hex_digits n = (if n < 16 then [hexdigit n] else hex_digits (n div 16) @ [hexdigit (n mod 16)])"

declare hex_digits.simps [simp del]

text \<open>\<^verbatim>\<open>"{:02x}".format(n)\<close>: zero padding to width 2, the sign counted in the width.\<close>

definition format_02x :: "int \<Rightarrow> string" where
  "format_02x n =
     (if n < 0 then CHR ''-'' # hex_digits (nat (- n))
      else let ds = hex_digits (nat n) in replicate (2 - length ds) CHR ''0'' @ ds)"

text \<open>\<^verbatim>\<open>hex(x)\<close> for \<open>x \<ge> 0\<close>.\<close>

definition py_hex :: "nat \<Rightarrow> string" where
  "py_hex n = ''0x'' @ hex_digits n"

definition hexval :: "char \<Rightarrow> nat option" where
  "hexval c = map_of (zip ''0123456789abcdefABCDEF''
                 [0, 1, 2, 3, 4, 5, 6, 7, 8, 9, 10, 11, 12, 13, 14, 15, 10, 11, 12, 13, 14, 15]) c"

fun int16_digits :: "string \<Rightarrow> nat \<Rightarrow> error + nat" where
  "int16_digits [] acc = Inr acc"
| "int16_digits (c # cs) acc =
     (case hexval c of None \<Rightarrow> Inl ValueError | Some d \<Rightarrow> int16_digits cs (16 * acc + d))"

text \<open>
  \<^verbatim>\<open>int(s, 16)\<close> on the strings the code gives it, which are results of \<^verbatim>\<open>hex\<close>: an
  optional \<^verbatim>\<open>0x\<close> and at least one hexadecimal digit; anything else is a
  \<^verbatim>\<open>ValueError\<close>.
\<close>

definition int16 :: "string \<Rightarrow> error + int" where
  "int16 s =
     (let body = (if take 2 s = ''0x'' then drop 2 s else s)
      in if body = [] then Inl ValueError else map_sum id int (int16_digits body 0))"

text \<open>\<^verbatim>\<open>int.from_bytes(bs)\<close>, whose byte order defaults to big-endian.\<close>

definition from_bytes :: "byte list \<Rightarrow> nat" where
  "from_bytes bs = foldl (\<lambda>acc b. 256 * acc + unat b) 0 bs"

text \<open>Decimal digits, and \<^verbatim>\<open>strftime\<close>'s zero-padded fields.\<close>

fun dec_digits :: "nat \<Rightarrow> string" where
  "dec_digits n = (if n < 10 then [''0123456789'' ! n] else dec_digits (n div 10) @ [''0123456789'' ! (n mod 10)])"

declare dec_digits.simps [simp del]

definition zero_pad :: "nat \<Rightarrow> nat \<Rightarrow> string" where
  "zero_pad w n = (let ds = dec_digits n in replicate (w - length ds) CHR ''0'' @ ds)"

text \<open>\<^verbatim>\<open>dt.strftime("ST%Y%m%d%H%M%SU")\<close>.\<close>

definition strftime_ST :: "civil \<Rightarrow> string" where
  "strftime_ST dt =
     ''ST'' @ zero_pad 4 (year dt) @ zero_pad 2 (month dt) @ zero_pad 2 (day dt)
       @ zero_pad 2 (hour dt) @ zero_pad 2 (minute dt) @ zero_pad 2 (second dt) @ ''U''"

text \<open>Sequencing of computations that may raise.\<close>

definition bindE :: "error + 'a \<Rightarrow> ('a \<Rightarrow> error + 'b) \<Rightarrow> error + 'b" where
  "bindE r f = (case r of Inl e \<Rightarrow> Inl e | Inr x \<Rightarrow> f x)"

text \<open>\<^verbatim>\<open>xs[i]\<close> for \<open>i \<ge> 0\<close>: an \<^verbatim>\<open>IndexError\<close> beyond the end.\<close>

definition item :: "'a list \<Rightarrow> nat \<Rightarrow> error + 'a" where
  "item xs i = (if i < length xs then Inr (xs ! i) else Inl IndexError)"

text \<open>\<^verbatim>\<open>assert c\<close>.\<close>

definition assert :: "bool \<Rightarrow> error + unit" where
  "assert c = (if c then Inr () else Inl AssertionError)"

text \<open>A list comprehension \<^verbatim>\<open>[f(x) for x in xs]\<close> whose \<open>f\<close> may raise.\<close>

fun mapE :: "('a \<Rightarrow> error + 'b) \<Rightarrow> 'a list \<Rightarrow> error + 'b list" where
  "mapE f [] = Inr []"
| "mapE f (x # xs) = bindE (f x) (\<lambda>y. bindE (mapE f xs) (\<lambda>ys. Inr (y # ys)))"

section \<open>The guarded client\<close>

text \<open>\<^verbatim>\<open>BleakClient.connect\<close> and \<^verbatim>\<open>BleakClient.disconnect\<close>, taken to succeed.\<close>

definition client_connect :: "save_client \<Rightarrow> save_client \<times> event list" where
  "client_connect c = (c\<lparr>is_connected := True\<rparr>, [Connect])"

definition client_disconnect :: "save_client \<Rightarrow> save_client \<times> event list" where
  "client_disconnect c = (c\<lparr>is_connected := False\<rparr>, [Disconnect])"

text \<open>\<^verbatim>\<open>SaveConnectBleakClient.__aenter__\<close> (lines 18 to 23).\<close>

definition aenter :: "save_client \<Rightarrow> save_client \<times> event list" where
  "aenter c = (if is_connected c then (c\<lparr>was_open := True\<rparr>, []) else client_connect c)"

text \<open>\<^verbatim>\<open>SaveConnectBleakClient.__aexit__\<close> (lines 25 to 28). It returns \<^verbatim>\<open>None\<close>, so an
  exception of the body goes on to the caller.\<close>

definition aexit :: "save_client \<Rightarrow> save_client \<times> event list" where
  "aexit c =
     (if \<not> was_open c
      then (let (c1, ev) = client_disconnect c in (c1\<lparr>was_open := False\<rparr>, ev))
      else (c, []))"

text \<open>A method of the cached client, run on the session that holds it.\<close>

definition on_client :: "(save_client \<Rightarrow> save_client \<times> event list) \<Rightarrow> session \<Rightarrow> session" where
  "on_client f s =
     (case priv_client s of
        None \<Rightarrow> s
      | Some c \<Rightarrow> (let (c1, ev) = f c in s\<lparr>priv_client := Some c1, trace := trace s @ ev\<rparr>))"

section \<open>The transport\<close>

text \<open>\<^verbatim>\<open>str.lower()\<close> and \<^verbatim>\<open>str.upper()\<close> on ASCII text: a letter changes case, every
  other character stays.\<close>

definition ascii_lower :: "char \<Rightarrow> char" where
  "ascii_lower c =
     (case map_of (zip ''ABCDEFGHIJKLMNOPQRSTUVWXYZ'' ''abcdefghijklmnopqrstuvwxyz'') c of
        None \<Rightarrow> c
      | Some l \<Rightarrow> l)"

definition ascii_upper :: "char \<Rightarrow> char" where
  "ascii_upper c =
     (case map_of (zip ''abcdefghijklmnopqrstuvwxyz'' ''ABCDEFGHIJKLMNOPQRSTUVWXYZ'') c of
        None \<Rightarrow> c
      | Some u \<Rightarrow> u)"

definition str_lower :: "string \<Rightarrow> string" where
  "str_lower s = map ascii_lower s"

definition str_upper :: "string \<Rightarrow> string" where
  "str_upper s = map ascii_upper s"

text \<open>\<^verbatim>\<open>BleakScanner.find_device_by_filter\<close>: the first discovered device that matches,
  \<^verbatim>\<open>None\<close> when the scan ends without one. \<^verbatim>\<open>BleakScanner.find_device_by_address\<close>
  lowercases the address it is given and filters on the lowercased address of each
  device, so the comparison ignores the case of letters.\<close>

definition find_device_by_address :: "ble_device list \<Rightarrow> string \<Rightarrow> ble_device option" where
  "find_device_by_address sc a =
     (let device_identifier = str_lower a
      in find (\<lambda>d. str_lower (dev_address d) = device_identifier) sc)"

definition find_device_by_filter :: "ble_device list \<Rightarrow> (ble_device \<Rightarrow> bool) \<Rightarrow> ble_device option" where
  "find_device_by_filter sc p = find p sc"

text \<open>\<^verbatim>\<open>client.read_gatt_char(CHAR_FEEDBACK)\<close>: the next reply of the feed.\<close>

definition read_gatt_char :: "session \<Rightarrow> (error + byte list) \<times> session" where
  "read_gatt_char s =
     (case feed s of
        [] \<Rightarrow> (Inl BleakError, s\<lparr>trace := trace s @ [Read]\<rparr>)
      | r # rest \<Rightarrow> (r, s\<lparr>feed := rest, trace := trace s @ [Read]\<rparr>))"

text \<open>\<^verbatim>\<open>client.write_gatt_char(CHAR_TX, bytearray(command, "utf-8"), response=True)\<close>,
  taken to succeed.\<close>

definition write_gatt_char :: "string \<Rightarrow> session \<Rightarrow> session" where
  "write_gatt_char command s = s\<lparr>trace := trace s @ [Write command]\<rparr>"

text \<open>\<^verbatim>\<open>asyncio.sleep(0.25)\<close> is \<open>sleep 250\<close>.\<close>

definition sleep :: "nat \<Rightarrow> session \<Rightarrow> session" where
  "sleep ms s = s\<lparr>trace := trace s @ [Sleep ms]\<rparr>"

text \<open>\<^verbatim>\<open>datetime.now()\<close>.\<close>

definition now :: "session \<Rightarrow> civil \<times> session" where
  "now s = (clock s (clock_reads s), s\<lparr>clock_reads := clock_reads s + 1\<rparr>)"

section \<open>The session\<close>

text \<open>\<^verbatim>\<open>scan\<close> (lines 95 to 114). An address that is \<^verbatim>\<open>None\<close> or empty is falsy.\<close>

definition scan :: "constants \<Rightarrow> session \<Rightarrow> (error + ble_device) \<times> session" where
  "scan K s =
     (let sc = (case scanner s of None \<Rightarrow> radio s | Some x \<Rightarrow> x);
          s1 = s\<lparr>scanner := Some sc\<rparr>;
          found =
            (if address s1 \<noteq> None \<and> address s1 \<noteq> Some []
             then find_device_by_address sc (the (address s1))
             else find_device_by_filter sc
                    (\<lambda>d. BT_MANUFACTURER_ID K \<in> set (manufacturer_data d)))
      in case found of
           None \<Rightarrow> (Inl RuntimeError, s1)
         | Some d \<Rightarrow> (Inr d, s1\<lparr>device := Some d, address := Some (dev_address d)\<rparr>))"

text \<open>\<^verbatim>\<open>_ensure_scan\<close> (lines 71 to 75).\<close>

definition ensure_scan :: "constants \<Rightarrow> session \<Rightarrow> (error + ble_device) \<times> session" where
  "ensure_scan K s = (case device s of None \<Rightarrow> scan K s | Some d \<Rightarrow> (Inr d, s))"

text \<open>The property \<^verbatim>\<open>client\<close> (lines 62 to 69).\<close>

definition client :: "constants \<Rightarrow> session \<Rightarrow> (error + save_client) \<times> session" where
  "client K s =
     (case priv_client s of
        Some c \<Rightarrow> (Inr c, s)
      | None \<Rightarrow>
          (case ensure_scan K s of
             (Inl e, s1) \<Rightarrow> (Inl e, s1)
           | (Inr d, s1) \<Rightarrow>
               (let c = \<lparr>is_connected = False, was_open = False\<rparr>
                in (Inr c, s1\<lparr>priv_client := Some c\<rparr>))))"

text \<open>The values \<^verbatim>\<open>refresh_data\<close> computes from a reply before it assigns any of them.\<close>

record status =
  st_timestamp :: nat
  st_red :: int
  st_green :: int
  st_blue :: int
  st_brightness :: int
  st_sound :: int
  st_volume :: int
  st_power :: bool

text \<open>
  Lines 122 to 137 of \<^verbatim>\<open>refresh_data\<close>, in the order of the code. \<open>192\<close> is
  \<^verbatim>\<open>int("11000000", 2)\<close>; \<^verbatim>\<open>bool(n)\<close> is \<open>n \<noteq> 0\<close>; \<^verbatim>\<open>PyHatchBabyRestSound(v)\<close> raises
  \<^verbatim>\<open>ValueError\<close> for a value that is not a member's.
\<close>

definition decode_status :: "constants \<Rightarrow> byte list \<Rightarrow> error + status" where
  "decode_status K raw_char_read =
     (let response = map (\<lambda>x. py_hex (unat x)) raw_char_read;
          timestamp = from_bytes (take 4 (drop 1 raw_char_read))
      in bindE (item response 5) (\<lambda>r5. bindE (assert (r5 = ''0x43'')) (\<lambda>_.
         bindE (item response 10) (\<lambda>r10. bindE (assert (r10 = ''0x53'')) (\<lambda>_.
         bindE (item response 13) (\<lambda>r13. bindE (assert (r13 = ''0x50'')) (\<lambda>_.
         bindE (mapE int16 (take 4 (drop 6 response))) (\<lambda>vs.
           (case vs of
              [red, green, blue, bright] \<Rightarrow>
                bindE (item response 11) (\<lambda>r11. bindE (int16 r11) (\<lambda>v11.
                bindE (if v11 \<in> set (sound_values K) then Inr v11 else Inl ValueError) (\<lambda>snd_mode.
                bindE (item response 12) (\<lambda>r12. bindE (int16 r12) (\<lambda>vol.
                bindE (item response 14) (\<lambda>r14. bindE (int16 r14) (\<lambda>v14.
                  (let pow = (\<not> (192 AND v14 \<noteq> 0))
                   in Inr \<lparr>st_timestamp = timestamp, st_red = red, st_green = green,
                           st_blue = blue, st_brightness = bright, st_sound = snd_mode,
                           st_volume = vol, st_power = pow\<rparr>))))))))
            | _ \<Rightarrow> Inl ValueError)))))))))"

text \<open>Lines 139 to 144 of \<^verbatim>\<open>refresh_data\<close>.\<close>

definition assign_status :: "status \<Rightarrow> session \<Rightarrow> session" where
  "assign_status st s =
     s\<lparr>time := Some (FromTimestamp (st_timestamp st)),
       color := Some (st_red st, st_green st, st_blue st),
       brightness := Some (st_brightness st),
       sound := Some (st_sound st),
       volume := Some (st_volume st),
       power_flag := Some (st_power st)\<rparr>"

text \<open>\<^verbatim>\<open>refresh_data\<close> (lines 116 to 144). The guard of line 119 is left, on every path,
  before the reply is decoded.\<close>

definition refresh_data :: "constants \<Rightarrow> session \<Rightarrow> (error + unit) \<times> session" where
  "refresh_data K s =
     (case ensure_scan K s of
        (Inl e, s1) \<Rightarrow> (Inl e, s1)
      | (Inr d, s1) \<Rightarrow>
          (case client K (s1\<lparr>device := Some d\<rparr>) of
             (Inl e, s2) \<Rightarrow> (Inl e, s2)
           | (Inr _, s2) \<Rightarrow>
               (let (r, s3) = read_gatt_char (on_client aenter s2);
                    s4 = on_client aexit s3
                in case r of
                     Inl e \<Rightarrow> (Inl e, s4)
                   | Inr raw_char_read \<Rightarrow>
                       (case decode_status K raw_char_read of
                          Inl e \<Rightarrow> (Inl e, s4)
                        | Inr st \<Rightarrow> (Inr (), assign_status st s4)))))"

text \<open>\<^verbatim>\<open>_send_command\<close> (lines 77 to 93). The refresh of line 93 runs inside the guard
  of line 84, on the same cached client.\<close>

definition send_command :: "constants \<Rightarrow> string \<Rightarrow> session \<Rightarrow> (error + unit) \<times> session" where
  "send_command K command s =
     (case ensure_scan K s of
        (Inl e, s1) \<Rightarrow> (Inl e, s1)
      | (Inr d, s1) \<Rightarrow>
          (case client K (s1\<lparr>device := Some d\<rparr>) of
             (Inl e, s2) \<Rightarrow> (Inl e, s2)
           | (Inr _, s2) \<Rightarrow>
               (let s3 = write_gatt_char command (on_client aenter s2);
                    (r, s4) = (if auto_refresh s3 then refresh_data K (sleep 250 s3)
                               else (Inr (), s3))
                in (r, on_client aexit s4))))"

text \<open>\<^verbatim>\<open>connect\<close> and \<^verbatim>\<open>disconnect\<close> of the session (lines 146 to 154).\<close>

definition connect :: "constants \<Rightarrow> session \<Rightarrow> (error + unit) \<times> session" where
  "connect K s =
     (case client K s of
        (Inl e, s1) \<Rightarrow> (Inl e, s1)
      | (Inr c, s1) \<Rightarrow>
          (if \<not> is_connected c then (Inr (), on_client client_connect s1) else (Inr (), s1)))"

definition disconnect :: "constants \<Rightarrow> session \<Rightarrow> (error + unit) \<times> session" where
  "disconnect K s =
     (case client K s of
        (Inl e, s1) \<Rightarrow> (Inl e, s1)
      | (Inr c, s1) \<Rightarrow>
          (if is_connected c then (Inr (), on_client client_disconnect s1) else (Inr (), s1)))"

text \<open>The property \<^verbatim>\<open>is_connected\<close> of the session (lines 207 to 213).\<close>

definition session_is_connected :: "session \<Rightarrow> bool" where
  "session_is_connected s = (case priv_client s of None \<Rightarrow> False | Some c \<Rightarrow> is_connected c)"

text \<open>\<^verbatim>\<open>power_on\<close> and \<^verbatim>\<open>power_off\<close> (lines 156 to 164).\<close>

definition power_on :: "constants \<Rightarrow> session \<Rightarrow> (error + unit) \<times> session" where
  "power_on K s =
     (let command = ''SI'' @ format_02x 1
      in send_command K command (s\<lparr>power_flag := Some True\<rparr>))"

definition power_off :: "constants \<Rightarrow> session \<Rightarrow> (error + unit) \<times> session" where
  "power_off K s =
     (let command = ''SI'' @ format_02x 0
      in send_command K command (s\<lparr>power_flag := Some False\<rparr>))"

text \<open>\<^verbatim>\<open>set_sound\<close> and \<^verbatim>\<open>set_volume\<close> (lines 166 to 174).\<close>

definition set_sound :: "constants \<Rightarrow> int \<Rightarrow> session \<Rightarrow> (error + unit) \<times> session" where
  "set_sound K snd_mode s =
     (let command = ''SN'' @ format_02x snd_mode
      in send_command K command (s\<lparr>sound := Some snd_mode\<rparr>))"

definition set_volume :: "constants \<Rightarrow> int \<Rightarrow> session \<Rightarrow> (error + unit) \<times> session" where
  "set_volume K vol s =
     (let command = ''SV'' @ format_02x vol
      in send_command K command (s\<lparr>volume := Some vol\<rparr>))"

text \<open>\<^verbatim>\<open>set_color\<close> and \<^verbatim>\<open>set_brightness\<close> (lines 176 to 192). Reading an attribute that
  was never assigned is an \<^verbatim>\<open>AttributeError\<close>.\<close>

definition set_color :: "constants \<Rightarrow> int \<Rightarrow> int \<Rightarrow> int \<Rightarrow> session \<Rightarrow> (error + unit) \<times> session" where
  "set_color K red green blue s =
     (case refresh_data K s of
        (Inl e, s1) \<Rightarrow> (Inl e, s1)
      | (Inr _, s1) \<Rightarrow>
          (case brightness s1 of
             None \<Rightarrow> (Inl AttributeError, s1)
           | Some bright \<Rightarrow>
               (let command = ''SC'' @ format_02x red @ format_02x green @ format_02x blue
                                @ format_02x bright
                in send_command K command (s1\<lparr>color := Some (red, green, blue)\<rparr>))))"

definition set_brightness :: "constants \<Rightarrow> int \<Rightarrow> session \<Rightarrow> (error + unit) \<times> session" where
  "set_brightness K bright s =
     (case refresh_data K s of
        (Inl e, s1) \<Rightarrow> (Inl e, s1)
      | (Inr _, s1) \<Rightarrow>
          (case color s1 of
             None \<Rightarrow> (Inl AttributeError, s1)
           | Some (red, green, blue) \<Rightarrow>
               (let command = ''SC'' @ format_02x red @ format_02x green @ format_02x blue
                                @ format_02x bright
                in send_command K command (s1\<lparr>brightness := Some bright\<rparr>))))"

text \<open>\<^verbatim>\<open>set_time\<close> (lines 194 to 201). A \<^verbatim>\<open>datetime\<close> is never falsy, so line 195 tests
  for \<^verbatim>\<open>None\<close>.\<close>

definition set_time :: "constants \<Rightarrow> datetime option \<Rightarrow> session \<Rightarrow> (error + unit) \<times> session" where
  "set_time K new_time s =
     (let (new_time1, s1) =
            (case new_time of
               None \<Rightarrow> (let (n, s0) = now s in (Naive n, s0))
             | Some t \<Rightarrow> (t, s));
          s2 = s1\<lparr>time := Some new_time1\<rparr>;
          (n2, s3) = now s2;
          command = strftime_ST n2
      in send_command K command s3)"

text \<open>The surroundings a session is created in, and the argument
  \<^verbatim>\<open>address_or_ble_device\<close> of the constructor.\<close>

record world =
  w_radio :: "ble_device list"
  w_feed :: "(error + byte list) list"
  w_clock :: "nat \<Rightarrow> civil"

datatype target = NoTarget | Address string | Device ble_device

text \<open>\<^verbatim>\<open>__init__\<close> (lines 34 to 60).\<close>

definition init ::
  "constants \<Rightarrow> target \<Rightarrow> ble_device list option \<Rightarrow> bool \<Rightarrow> bool \<Rightarrow> bool \<Rightarrow> world
     \<Rightarrow> (error + unit) \<times> session" where
  "init K address_or_ble_device scanner0 scan_now refresh_now auto_refresh0 w =
     (let s0 = \<lparr>scanner = scanner0, auto_refresh = auto_refresh0, device = None,
                address = None, priv_client = None, time = None, color = None,
                brightness = None, sound = None, volume = None, power_flag = None,
                radio = w_radio w, feed = w_feed w, trace = [], clock = w_clock w,
                clock_reads = 0\<rparr>;
          (r, s1) =
            (case address_or_ble_device of
               Device d \<Rightarrow> (Inr (), s0\<lparr>device := Some d, address := Some (dev_address d)\<rparr>)
             | Address a \<Rightarrow>
                 (if scan_now then map_prod (map_sum id (\<lambda>_. ())) id (scan K (s0\<lparr>address := Some a\<rparr>))
                  else (Inr (), s0\<lparr>address := Some a\<rparr>))
             | NoTarget \<Rightarrow>
                 (if scan_now then map_prod (map_sum id (\<lambda>_. ())) id (scan K s0)
                  else (Inr (), s0)))
      in case r of
           Inl e \<Rightarrow> (Inl e, s1)
         | Inr _ \<Rightarrow> (if refresh_now then refresh_data K s1 else (Inr (), s1)))"

section \<open>Notions used to state the properties\<close>

text \<open>The two hexadecimal digits of a byte, in lowercase.\<close>

definition hex2 :: "byte \<Rightarrow> string" where
  "hex2 b = [hexdigit (unat b div 16), hexdigit (unat b mod 16)]"

text \<open>
  A well-formed status buffer: long enough for the flags byte at offset 14, the three
  section markers in place, and a sound identifier that is a member of the enumeration.
\<close>

definition well_formed :: "constants \<Rightarrow> byte list \<Rightarrow> bool" where
  "well_formed K raw \<longleftrightarrow>
     15 \<le> length raw \<and> raw ! 5 = 0x43 \<and> raw ! 10 = 0x53 \<and> raw ! 13 = 0x50
       \<and> uint (raw ! 11) \<in> set (sound_values K)"

text \<open>The status snapshot of a session: its six status attributes.\<close>

definition snapshot ::
  "session \<Rightarrow> datetime option \<times> (int \<times> int \<times> int) option \<times> int option \<times> int option
     \<times> int option \<times> bool option" where
  "snapshot s = (time s, color s, brightness s, sound s, volume s, power_flag s)"

text \<open>The snapshot that assigning a decoded status produces.\<close>

definition status_snapshot ::
  "status \<Rightarrow> datetime option \<times> (int \<times> int \<times> int) option \<times> int option \<times> int option
     \<times> int option \<times> bool option" where
  "status_snapshot st =
     (Some (FromTimestamp (st_timestamp st)), Some (st_red st, st_green st, st_blue st),
      Some (st_brightness st), Some (st_sound st), Some (st_volume st), Some (st_power st))"

text \<open>The client a guarded operation works on: the cached one, or the one the property
  \<^verbatim>\<open>client\<close> creates.\<close>

definition the_client :: "session \<Rightarrow> save_client" where
  "the_client s =
     (case priv_client s of None \<Rightarrow> \<lparr>is_connected = False, was_open = False\<rparr> | Some c \<Rightarrow> c)"

text \<open>The devices a scan of the session can discover, the device a scan finds, and
  the absence of a match: no discovered device has the address of the session, the case
  of letters ignored, when that address is not empty, and no discovered device has the
  manufacturer identifier among the keys of its manufacturer data otherwise.\<close>

definition visible :: "session \<Rightarrow> ble_device list" where
  "visible s = (case scanner s of None \<Rightarrow> radio s | Some sc \<Rightarrow> sc)"

definition scan_found :: "constants \<Rightarrow> session \<Rightarrow> ble_device option" where
  "scan_found K s =
     (if address s \<noteq> None \<and> address s \<noteq> Some []
      then find_device_by_address (visible s) (the (address s))
      else find_device_by_filter (visible s)
             (\<lambda>d. BT_MANUFACTURER_ID K \<in> set (manufacturer_data d)))"

definition no_match :: "constants \<Rightarrow> session \<Rightarrow> bool" where
  "no_match K s =
     (case address s of
        None \<Rightarrow> list_all (\<lambda>dv. BT_MANUFACTURER_ID K \<notin> set (manufacturer_data dv)) (visible s)
      | Some a \<Rightarrow>
          (if a = [] then list_all (\<lambda>dv. BT_MANUFACTURER_ID K \<notin> set (manufacturer_data dv)) (visible s)
           else list_all (\<lambda>dv. str_lower (dev_address dv) \<noteq> str_lower a) (visible s)))"

text \<open>The reads and writes of a trace, in order.\<close>

definition io_events :: "event list \<Rightarrow> event list" where
  "io_events tr = filter (\<lambda>e. case e of Read \<Rightarrow> True | Write _ \<Rightarrow> True | _ \<Rightarrow> False) tr"

subsection \<open>Example values\<close>

text \<open>Values for the constants, two devices, a status buffer with a given flags byte,
  and a session as the constructor leaves it when it is given a device and neither
  scans nor refreshes.\<close>

definition example_constants :: constants where
  "example_constants =
     \<lparr>BT_MANUFACTURER_ID = 1076, sound_values = [0, 2, 3, 4, 5, 6, 7, 9, 10, 11, 13, 14]\<rparr>"

definition example_device :: ble_device where
  "example_device = \<lparr>dev_address = ''AA:BB'', dev_name = ''Hatch'', manufacturer_data = [1076]\<rparr>"

definition other_device :: ble_device where
  "other_device = \<lparr>dev_address = ''CC:DD'', dev_name = ''Other'', manufacturer_data = [76]\<rparr>"

definition example_buffer :: "byte \<Rightarrow> byte list" where
  "example_buffer flags =
     [0x54, 0x65, 0x43, 0x21, 0x00, 0x43, 0x0A, 0x14, 0x1E, 0x64, 0x53, 0x02, 0x20, 0x50, flags]"

definition example_clock :: "nat \<Rightarrow> civil" where
  "example_clock n = \<lparr>year = 2026, month = 11, day = 4, hour = 7, minute = 5, second = n\<rparr>"

definition example_world :: "ble_device list \<Rightarrow> (error + byte list) list \<Rightarrow> world" where
  "example_world devs replies = \<lparr>w_radio = devs, w_feed = replies, w_clock = example_clock\<rparr>"

definition example_session :: "bool \<Rightarrow> (error + byte list) list \<Rightarrow> session" where
  "example_session auto replies =
     snd (init example_constants (Device example_device) None False False auto
            (example_world [other_device, example_device] replies))"

text \<open>A session as the constructor leaves it when it is given no address and no device
  and does not scan: the first operation scans the given devices.\<close>

definition scanning_session :: "ble_device list \<Rightarrow> session" where
  "scanning_session devs =
     snd (init example_constants NoTarget None False False True (example_world devs []))"

text \<open>A session as the constructor leaves it when it is given an address and does not
  scan.\<close>

definition addressed_session :: "string \<Rightarrow> ble_device list \<Rightarrow> session" where
  "addressed_session a devs =
     snd (init example_constants (Address a) None False False True (example_world devs []))"

section \<open>Properties\<close>

subsection \<open>Formatting and parsing\<close>

lemma hexval_hexdigit: "d < 16 \<Longrightarrow> hexval (hexdigit d) = Some d"
proof -
  assume "d < 16"
  then have "d \<in> set [0..<16]" by simp
  moreover have "list_all (\<lambda>d. hexval (hexdigit d) = Some d) [0..<16]" by code_simp
  ultimately show ?thesis unfolding list_all_iff by blast
qed

lemma int16_digits_append:
  "int16_digits (xs @ ys) acc = bindE (int16_digits xs acc) (int16_digits ys)"
  by (induction xs arbitrary: acc) (auto simp: bindE_def split: option.splits)

lemma int16_digits_hex: "int16_digits (hex_digits n) 0 = Inr n"
proof (induction n rule: hex_digits.induct)
  case (1 n)
  show ?case
  proof (cases "n < 16")
    case True
    then show ?thesis by (subst hex_digits.simps) (simp add: hexval_hexdigit)
  next
    case False
    then have "int16_digits (hex_digits (n div 16)) 0 = Inr (n div 16)" using 1 by simp
    then show ?thesis using False
      by (subst hex_digits.simps) (simp add: int16_digits_append bindE_def hexval_hexdigit)
  qed
qed

lemma hex_digits_nonempty: "hex_digits n \<noteq> []"
  by (subst hex_digits.simps) simp

lemma int16_py_hex: "int16 (py_hex n) = Inr (int n)"
  by (simp add: int16_def py_hex_def hex_digits_nonempty int16_digits_hex)

lemma py_hex_inj: "py_hex a = py_hex b \<Longrightarrow> a = b"
proof -
  assume "py_hex a = py_hex b"
  then have "int16 (py_hex a) = int16 (py_hex b)" by simp
  then show ?thesis by (simp add: int16_py_hex)
qed

lemma py_hex_67: "py_hex 67 = ''0x43''" and py_hex_83: "py_hex 83 = ''0x53''" and py_hex_80: "py_hex 80 = ''0x50''"
  by (simp_all add: py_hex_def hex_digits.simps hexdigit_def)

lemma format_02x_byte: "format_02x (uint (b::byte)) = hex2 b"
proof -
  have lt: "unat b < 256" using unsigned_less [of b, where ?'a = nat] by simp
  show ?thesis
  proof (cases "unat b < 16")
    case True
    then show ?thesis
      by (simp add: format_02x_def hex2_def hex_digits.simps [of "unat b"] hexdigit_def)
  next
    case False
    moreover have "unat b div 16 < 16" using lt by simp
    ultimately show ?thesis
      by (simp add: format_02x_def hex2_def hex_digits.simps [of "unat b"] hex_digits.simps [of "unat b div 16"])
  qed
qed

lemma py_hex_eq_iff: "(py_hex a = py_hex b) = (a = b)"
  using py_hex_inj by blast

lemma marker_eq: "(py_hex (unat (b::byte)) = ''0x43'') = (b = 0x43)"
  "(py_hex (unat (b::byte)) = ''0x53'') = (b = 0x53)"
  "(py_hex (unat (b::byte)) = ''0x50'') = (b = 0x50)"
  unfolding py_hex_67 [symmetric] py_hex_83 [symmetric] py_hex_80 [symmetric] py_hex_eq_iff
  by (simp_all add: word_unat_eq_iff)

subsection \<open>Decoding a status buffer\<close>

lemma item_map: "i < length xs \<Longrightarrow> item (map f xs) i = Inr (f (xs ! i))"
  by (simp add: item_def)

lemma item_map_short: "length xs \<le> i \<Longrightarrow> item (map f xs) i = Inl IndexError"
  by (simp add: item_def)

lemma take4_drop6:
  assumes "10 \<le> length xs"
  shows "take 4 (drop 6 xs) = [xs ! 6, xs ! 7, xs ! 8, xs ! 9]"
proof -
  have d6: "drop 6 xs = xs ! 6 # drop 7 xs" using assms Cons_nth_drop_Suc [of 6 xs] by simp
  have d7: "drop 7 xs = xs ! 7 # drop 8 xs" using assms Cons_nth_drop_Suc [of 7 xs] by simp
  have d8: "drop 8 xs = xs ! 8 # drop 9 xs" using assms Cons_nth_drop_Suc [of 8 xs] by simp
  have d9: "drop 9 xs = xs ! 9 # drop 10 xs" using assms Cons_nth_drop_Suc [of 9 xs] by simp
  show ?thesis by (simp add: d6 d7 d8 d9)
qed

lemma take4_drop1:
  assumes "5 \<le> length xs"
  shows "take 4 (drop (Suc 0) xs) = [xs ! 1, xs ! 2, xs ! 3, xs ! 4]"
proof -
  have d1: "drop (Suc 0) xs = xs ! 1 # drop 2 xs" using assms Cons_nth_drop_Suc [of 1 xs] by (simp add: numeral_2_eq_2)
  have d2: "drop 2 xs = xs ! 2 # drop 3 xs" using assms Cons_nth_drop_Suc [of 2 xs] by simp
  have d3: "drop 3 xs = xs ! 3 # drop 4 xs" using assms Cons_nth_drop_Suc [of 3 xs] by simp
  have d4: "drop 4 xs = xs ! 4 # drop 5 xs" using assms Cons_nth_drop_Suc [of 4 xs] by simp
  show ?thesis by (simp add: d1 d2 d3 d4)
qed

lemma power_mask: "(192 AND uint (b::byte) = 0) = (b AND 0xC0 = 0)"
proof -
  have "uint (b AND 0xC0) = uint b AND 192" by (simp add: uint_and)
  then show ?thesis by (metis and.commute uint_0_iff)
qed

lemma decode_well_formed:
  assumes "well_formed K raw"
  shows "decode_status K raw =
    Inr \<lparr>st_timestamp = from_bytes (take 4 (drop 1 raw)),
         st_red = uint (raw ! 6), st_green = uint (raw ! 7), st_blue = uint (raw ! 8),
         st_brightness = uint (raw ! 9), st_sound = uint (raw ! 11),
         st_volume = uint (raw ! 12), st_power = (raw ! 14 AND 0xC0 = 0)\<rparr>"
  using assms
  by (simp add: well_formed_def decode_status_def Let_def item_map marker_eq bindE_def
      assert_def take4_drop6 drop_map take_map int16_py_hex power_mask py_hex_67 py_hex_83 py_hex_80)

lemma decode_ok_well_formed:
  assumes "decode_status K raw = Inr st"
  shows "well_formed K raw"
  using assms
  by (auto simp: well_formed_def decode_status_def Let_def item_def marker_eq bindE_def
      assert_def  int16_py_hex split: if_splits sum.splits list.splits)

subsection \<open>Closed forms of refresh and send, the device known\<close>

lemma ensure_scan_known: "device s = Some d \<Longrightarrow> ensure_scan K s = (Inr d, s)"
  by (simp add: ensure_scan_def)

lemma client_known:
  "device s = Some d \<Longrightarrow>
   client K s = (Inr (the_client s), s\<lparr>priv_client := Some (the_client s)\<rparr>)"
  by (cases "priv_client s") (simp_all add: client_def the_client_def ensure_scan_known Let_def)

lemma on_client_Some:
  "priv_client s = Some c \<Longrightarrow>
   on_client f s = s\<lparr>priv_client := Some (fst (f c)), trace := trace s @ snd (f c)\<rparr>"
  by (simp add: on_client_def case_prod_beta)

lemma refresh_closed:
  assumes "device s = Some d"
  shows "refresh_data K s =
    (let c1 = fst (aenter (the_client s));
         s4 = s\<lparr>feed := tl (feed s), priv_client := Some (fst (aexit c1)),
                trace := trace s @ snd (aenter (the_client s)) @ [Read] @ snd (aexit c1)\<rparr>
     in case feed s of
          [] \<Rightarrow> (Inl BleakError, s4)
        | r # _ \<Rightarrow>
           (case r of
              Inl e \<Rightarrow> (Inl e, s4)
            | Inr raw \<Rightarrow>
               (case decode_status K raw of
                  Inl e \<Rightarrow> (Inl e, s4)
                | Inr st \<Rightarrow> (Inr (), assign_status st s4))))"
proof -
  have dev: "s\<lparr>device := Some d\<rparr> = s" using assms by simp
  show ?thesis
  proof (cases "feed s")
    case Nil
    then show ?thesis using assms
      by (simp add: refresh_data_def ensure_scan_known dev client_known on_client_Some
          read_gatt_char_def Let_def)
  next
    case (Cons r rest)
    then show ?thesis using assms
      by (simp add: refresh_data_def ensure_scan_known dev client_known on_client_Some
          read_gatt_char_def Let_def split: sum.splits)
  qed
qed

lemma aenter_connected [simp]: "is_connected (fst (aenter c))"
  by (simp add: aenter_def client_connect_def)

lemma aenter_was_open [simp]: "was_open (fst (aenter c)) = (was_open c \<or> is_connected c)"
  by (simp add: aenter_def client_connect_def)

lemma aenter_events: "snd (aenter c) = (if is_connected c then [] else [Connect])"
  by (simp add: aenter_def client_connect_def)

lemma aexit_connected [simp]: "is_connected (fst (aexit c)) = (was_open c \<and> is_connected c)"
  by (simp add: aexit_def client_disconnect_def)

lemma aexit_was_open [simp]: "was_open (fst (aexit c)) = was_open c"
  by (simp add: aexit_def client_disconnect_def)

lemma aexit_events: "snd (aexit c) = (if was_open c then [] else [Disconnect])"
  by (simp add: aexit_def client_disconnect_def)

lemma aexit_sticky: "was_open c \<Longrightarrow> aexit c = (c, [])"
  by (simp add: aexit_def)

lemma aenter_open: "is_connected c \<Longrightarrow> aenter c = (c\<lparr>was_open := True\<rparr>, [])"
  by (simp add: aenter_def)

lemma on_client_assign:
  "on_client f (assign_status st s) = assign_status st (on_client f s)"
  by (cases "priv_client s") (simp_all add: on_client_def assign_status_def case_prod_beta)

lemma send_closed:
  assumes "device s = Some d"
  shows "send_command K cmd s =
    (let s3 = s\<lparr>priv_client := Some (fst (aenter (the_client s))),
                trace := trace s @ snd (aenter (the_client s)) @ [Write cmd]\<rparr>
     in if auto_refresh s
        then (fst (refresh_data K (sleep 250 s3)), on_client aexit (snd (refresh_data K (sleep 250 s3))))
        else (Inr (), on_client aexit s3))"
proof -
  have dev: "s\<lparr>device := Some d\<rparr> = s" using assms by simp
  show ?thesis using assms
    by (simp add: send_command_def ensure_scan_known dev client_known on_client_Some
        write_gatt_char_def Let_def case_prod_beta)
qed

lemma send_no_refresh:
  assumes "device s = Some d" "\<not> auto_refresh s"
  shows "send_command K cmd s =
    (Inr (), s\<lparr>priv_client := Some (fst (aexit (fst (aenter (the_client s))))),
              trace := trace s @ snd (aenter (the_client s)) @ [Write cmd]
                         @ snd (aexit (fst (aenter (the_client s))))\<rparr>)"
  using assms by (simp add: send_closed [OF assms(1)] on_client_Some)

lemma send_auto:
  assumes "device s = Some d" "auto_refresh s"
  shows "send_command K cmd s =
    (let s4 = s\<lparr>feed := tl (feed s),
                priv_client := Some ((fst (aenter (the_client s)))\<lparr>was_open := True\<rparr>),
                trace := trace s @ snd (aenter (the_client s)) @ [Write cmd, Sleep 250, Read]\<rparr>
     in case feed s of
          [] \<Rightarrow> (Inl BleakError, s4)
        | r # _ \<Rightarrow>
           (case r of
              Inl e \<Rightarrow> (Inl e, s4)
            | Inr raw \<Rightarrow>
               (case decode_status K raw of
                  Inl e \<Rightarrow> (Inl e, s4)
                | Inr st \<Rightarrow> (Inr (), assign_status st s4))))"
proof -
  define s3 where "s3 = sleep 250 (s\<lparr>priv_client := Some (fst (aenter (the_client s))),
                trace := trace s @ snd (aenter (the_client s)) @ [Write cmd]\<rparr>)"
  have d3: "device s3 = Some d" using assms by (simp add: s3_def sleep_def)
  have c3: "the_client s3 = fst (aenter (the_client s))"
    by (simp add: s3_def sleep_def the_client_def)
  have r: "send_command K cmd s = (fst (refresh_data K s3), on_client aexit (snd (refresh_data K s3)))"
    using assms by (simp add: send_closed [OF assms(1)] s3_def Let_def)
  show ?thesis
    unfolding r refresh_closed [OF d3] c3
    by (simp add: Let_def aenter_open aexit_sticky on_client_assign on_client_Some s3_def sleep_def
        split: list.splits sum.splits)
qed

subsection \<open>Scanning\<close>

lemma find_None_list_all: "(find P xs = None) = list_all (\<lambda>x. \<not> P x) xs"
  by (induction xs) auto

lemma scan_closed:
  "scan K s =
     (case scan_found K s of
        None \<Rightarrow> (Inl RuntimeError, s\<lparr>scanner := Some (visible s)\<rparr>)
      | Some d \<Rightarrow>
          (Inr d, s\<lparr>scanner := Some (visible s), device := Some d,
                    address := Some (dev_address d)\<rparr>))"
  unfolding scan_def scan_found_def visible_def Let_def by simp

lemma scan_found_None: "(scan_found K s = None) = no_match K s"
  by (cases "address s")
     (simp_all add: scan_found_def no_match_def find_device_by_address_def Let_def
        find_device_by_filter_def find_None_list_all)

lemma scan_fails_iff: "(fst (scan K s) = Inl RuntimeError) = no_match K s"
  by (simp add: scan_closed scan_found_None [symmetric] split: option.splits)

lemma scan_error: "fst (scan K s) = Inl e \<Longrightarrow> e = RuntimeError"
  by (simp add: scan_closed split: option.splits)

lemma scan_fail_identity:
  "fst (scan K s) = Inl e \<Longrightarrow>
   device (snd (scan K s)) = device s \<and> address (snd (scan K s)) = address s"
  by (simp add: scan_closed split: option.splits)

lemma scan_shape:
  "fst (scan K s) = Inr d \<Longrightarrow>
   \<exists>sc a. snd (scan K s) = s\<lparr>scanner := sc, device := Some d, address := a\<rparr>"
  by (cases "scan_found K s") (auto simp: scan_closed)

lemma ensure_scan_shape:
  assumes "fst (ensure_scan K s) = Inr d"
  shows "\<exists>sc a. snd (ensure_scan K s) = s\<lparr>scanner := sc, device := Some d, address := a\<rparr>"
proof (cases "device s")
  case None
  then show ?thesis using assms scan_shape [of K s d] by (simp add: ensure_scan_def)
next
  case (Some d')
  then have "snd (ensure_scan K s) = s" "d' = d" using assms by (simp_all add: ensure_scan_def)
  moreover have "s = s\<lparr>scanner := scanner s, device := Some d, address := address s\<rparr>"
    using Some \<open>d' = d\<close> by simp
  ultimately show ?thesis by metis
qed

lemma refresh_after_scan:
  assumes "fst (ensure_scan K s) = Inr d"
  shows "refresh_data K s = refresh_data K (snd (ensure_scan K s))"
proof -
  obtain sc a where eq: "snd (ensure_scan K s) = s\<lparr>scanner := sc, device := Some d, address := a\<rparr>"
    using ensure_scan_shape [OF assms] by blast
  have "ensure_scan K s = (Inr d, s\<lparr>scanner := sc, device := Some d, address := a\<rparr>)"
    using assms eq by (metis prod.collapse)
  then show ?thesis
    unfolding eq by (simp add: refresh_data_def [of K s] refresh_data_def [of K "s\<lparr>scanner := sc, device := Some d, address := a\<rparr>"] ensure_scan_known)
qed

lemma send_after_scan:
  assumes "fst (ensure_scan K s) = Inr d"
  shows "send_command K cmd s = send_command K cmd (snd (ensure_scan K s))"
proof -
  obtain sc a where eq: "snd (ensure_scan K s) = s\<lparr>scanner := sc, device := Some d, address := a\<rparr>"
    using ensure_scan_shape [OF assms] by blast
  have "ensure_scan K s = (Inr d, s\<lparr>scanner := sc, device := Some d, address := a\<rparr>)"
    using assms eq by (metis prod.collapse)
  then show ?thesis
    unfolding eq by (simp add: send_command_def [of K cmd s] send_command_def [of K cmd "s\<lparr>scanner := sc, device := Some d, address := a\<rparr>"] ensure_scan_known)
qed

lemma ensure_scan_cong:
  assumes "device s' = device s" "scanner s' = scanner s" "radio s' = radio s" "address s' = address s"
  shows "fst (ensure_scan K s') = fst (ensure_scan K s)"
proof -
  have "visible s' = visible s" using assms by (simp add: visible_def split: option.splits)
  then have "scan_found K s' = scan_found K s" using assms by (simp add: scan_found_def)
  then have "fst (scan K s') = fst (scan K s)" by (simp add: scan_closed split: option.splits)
  then show ?thesis using assms by (simp add: ensure_scan_def split: option.splits)
qed

subsection \<open>What a refresh leaves behind\<close>

lemma snapshot_assign: "snapshot (assign_status st s) = status_snapshot st"
  by (simp add: snapshot_def assign_status_def status_snapshot_def)

lemma snapshot_upd [simp]:
  "snapshot (s\<lparr>scanner := sc\<rparr>) = snapshot s"
  "snapshot (s\<lparr>device := dv\<rparr>) = snapshot s"
  "snapshot (s\<lparr>address := ad\<rparr>) = snapshot s"
  "snapshot (s\<lparr>priv_client := pc\<rparr>) = snapshot s"
  "snapshot (s\<lparr>feed := fd\<rparr>) = snapshot s"
  "snapshot (s\<lparr>trace := tr\<rparr>) = snapshot s"
  by (simp_all add: snapshot_def)

lemma the_client_upd [simp]:
  "the_client (s\<lparr>scanner := sc\<rparr>) = the_client s"
  "the_client (s\<lparr>device := dv\<rparr>) = the_client s"
  "the_client (s\<lparr>address := ad\<rparr>) = the_client s"
  "the_client (s\<lparr>time := tm\<rparr>) = the_client s"
  "the_client (s\<lparr>color := cl\<rparr>) = the_client s"
  "the_client (s\<lparr>brightness := br\<rparr>) = the_client s"
  "the_client (s\<lparr>sound := sn\<rparr>) = the_client s"
  "the_client (s\<lparr>volume := vl\<rparr>) = the_client s"
  "the_client (s\<lparr>power_flag := pw\<rparr>) = the_client s"
  "the_client (s\<lparr>clock_reads := cr\<rparr>) = the_client s"
  "the_client (s\<lparr>priv_client := Some c\<rparr>) = c"
  by (simp_all add: the_client_def)

lemma decode_bad_marker:
  assumes "well_formed K raw" "i = 5 \<or> i = 10 \<or> i = 13" "v \<noteq> raw ! i"
  shows "decode_status K (raw[i := v]) = Inl AssertionError"
  using assms
  by (auto simp: well_formed_def decode_status_def Let_def item_map marker_eq bindE_def assert_def)

lemma decode_bad_sound:
  assumes "well_formed K raw" "uint v \<notin> set (sound_values K)"
  shows "decode_status K (raw[11 := v]) = Inl ValueError"
  using assms
  by (simp add: well_formed_def decode_status_def Let_def item_map marker_eq bindE_def
      assert_def take4_drop6 drop_map take_map int16_py_hex py_hex_67 py_hex_83 py_hex_80)

lemma from_bytes4:
  "5 \<le> length raw \<Longrightarrow>
   from_bytes (take 4 (drop 1 raw)) =
     16777216 * unat (raw ! 1) + 65536 * unat (raw ! 2) + 256 * unat (raw ! 3) + unat (raw ! 4)"
  by (simp add: take4_drop1 from_bytes_def)

lemma refresh_scanned:
  assumes "fst (ensure_scan K s) = Inr d"
  obtains sc a where
    "refresh_data K s = refresh_data K (s\<lparr>scanner := sc, device := Some d, address := a\<rparr>)"
proof -
  obtain sc a where "snd (ensure_scan K s) = s\<lparr>scanner := sc, device := Some d, address := a\<rparr>"
    using ensure_scan_shape [OF assms] by blast
  then have "refresh_data K s = refresh_data K (s\<lparr>scanner := sc, device := Some d, address := a\<rparr>)"
    using refresh_after_scan [OF assms] by simp
  then show ?thesis by (rule that)
qed

lemma send_scanned:
  assumes "fst (ensure_scan K s) = Inr d"
  obtains sc a where
    "send_command K cmd s = send_command K cmd (s\<lparr>scanner := sc, device := Some d, address := a\<rparr>)"
proof -
  obtain sc a where "snd (ensure_scan K s) = s\<lparr>scanner := sc, device := Some d, address := a\<rparr>"
    using ensure_scan_shape [OF assms] by blast
  then have "send_command K cmd s = send_command K cmd (s\<lparr>scanner := sc, device := Some d, address := a\<rparr>)"
    using send_after_scan [OF assms] by simp
  then show ?thesis by (rule that)
qed

lemma refresh_fst:
  assumes "fst (ensure_scan K s) = Inr d"
  shows "fst (refresh_data K s) =
     (case feed s of
        [] \<Rightarrow> Inl BleakError
      | Inl e # _ \<Rightarrow> Inl e
      | Inr raw # _ \<Rightarrow> map_sum id (\<lambda>_. ()) (decode_status K raw))"
proof -
  obtain sc a where eq:
    "refresh_data K s = refresh_data K (s\<lparr>scanner := sc, device := Some d, address := a\<rparr>)"
    using refresh_scanned [OF assms] by blast
  show ?thesis unfolding eq
    by (subst refresh_closed [where d = d]) (simp_all add: Let_def split: list.splits sum.splits)
qed

lemma refresh_snapshot:
  assumes "fst (ensure_scan K s) = Inr d"
  shows "snapshot (snd (refresh_data K s)) =
     (case feed s of
        Inr raw # _ \<Rightarrow>
          (case decode_status K raw of Inl e \<Rightarrow> snapshot s | Inr st \<Rightarrow> status_snapshot st)
      | _ \<Rightarrow> snapshot s)"
proof -
  obtain sc a where eq:
    "refresh_data K s = refresh_data K (s\<lparr>scanner := sc, device := Some d, address := a\<rparr>)"
    using refresh_scanned [OF assms] by blast
  show ?thesis unfolding eq
    by (subst refresh_closed [where d = d])
       (simp_all add: Let_def snapshot_assign split: list.splits sum.splits)
qed

lemma refresh_trace:
  assumes "fst (ensure_scan K s) = Inr d"
  shows "trace (snd (refresh_data K s)) =
     trace s @ snd (aenter (the_client s)) @ [Read] @ snd (aexit (fst (aenter (the_client s))))"
proof -
  obtain sc a where eq:
    "refresh_data K s = refresh_data K (s\<lparr>scanner := sc, device := Some d, address := a\<rparr>)"
    using refresh_scanned [OF assms] by blast
  show ?thesis unfolding eq
    by (subst refresh_closed [where d = d])
       (simp_all add: Let_def assign_status_def split: list.splits sum.splits)
qed

lemma refresh_client:
  assumes "fst (ensure_scan K s) = Inr d"
  shows "priv_client (snd (refresh_data K s)) = Some (fst (aexit (fst (aenter (the_client s)))))"
proof -
  obtain sc a where eq:
    "refresh_data K s = refresh_data K (s\<lparr>scanner := sc, device := Some d, address := a\<rparr>)"
    using refresh_scanned [OF assms] by blast
  show ?thesis unfolding eq
    by (subst refresh_closed [where d = d])
       (simp_all add: Let_def assign_status_def split: list.splits sum.splits)
qed

lemma refresh_fail_snapshot:
  "fst (refresh_data K s) = Inl e \<Longrightarrow> snapshot (snd (refresh_data K s)) = snapshot s"
proof (cases "fst (ensure_scan K s)")
  case (Inl e')
  assume "fst (refresh_data K s) = Inl e"
  have "snd (refresh_data K s) = snd (ensure_scan K s)"
    using Inl by (cases "ensure_scan K s") (simp add: refresh_data_def)
  moreover have "snapshot (snd (ensure_scan K s)) = snapshot s"
    by (simp add: ensure_scan_def scan_closed split: option.splits)
  ultimately show ?thesis by simp
next
  case (Inr d)
  assume f: "fst (refresh_data K s) = Inl e"
  show ?thesis using f unfolding refresh_fst [OF Inr] refresh_snapshot [OF Inr]
    by (auto split: list.splits sum.splits)
qed

lemma refresh_well_formed:
  assumes "fst (ensure_scan K s) = Inr d" "feed s = Inr raw # rest" "well_formed K raw"
  shows "fst (refresh_data K s) = Inr ()"
    and "snapshot (snd (refresh_data K s)) =
      (Some (FromTimestamp (16777216 * unat (raw ! 1) + 65536 * unat (raw ! 2)
                              + 256 * unat (raw ! 3) + unat (raw ! 4))),
       Some (uint (raw ! 6), uint (raw ! 7), uint (raw ! 8)), Some (uint (raw ! 9)),
       Some (uint (raw ! 11)), Some (uint (raw ! 12)), Some (raw ! 14 AND 0xC0 = 0))"
proof -
  have len: "5 \<le> length raw" using assms(3) by (simp add: well_formed_def)
  show "fst (refresh_data K s) = Inr ()"
    by (simp add: refresh_fst [OF assms(1)] assms(2) decode_well_formed [OF assms(3)])
  show "snapshot (snd (refresh_data K s)) =
      (Some (FromTimestamp (16777216 * unat (raw ! 1) + 65536 * unat (raw ! 2)
                              + 256 * unat (raw ! 3) + unat (raw ! 4))),
       Some (uint (raw ! 6), uint (raw ! 7), uint (raw ! 8)), Some (uint (raw ! 9)),
       Some (uint (raw ! 11)), Some (uint (raw ! 12)), Some (raw ! 14 AND 0xC0 = 0))"
    using from_bytes4 [OF len]
    by (simp add: refresh_snapshot [OF assms(1)] assms(2) decode_well_formed [OF assms(3)]
        status_snapshot_def)
qed

subsection \<open>What a command leaves behind\<close>

lemma session_is_connected_the_client: "session_is_connected s = is_connected (the_client s)"
  by (simp add: session_is_connected_def the_client_def split: option.splits)

lemma io_events_simps [simp]:
  "io_events [] = []"
  "io_events (xs @ ys) = io_events xs @ io_events ys"
  "io_events (Read # xs) = Read # io_events xs"
  "io_events (Write c # xs) = Write c # io_events xs"
  "io_events (Connect # xs) = io_events xs"
  "io_events (Disconnect # xs) = io_events xs"
  "io_events (Sleep n # xs) = io_events xs"
  by (simp_all add: io_events_def)

lemma io_events_guard [simp]: "io_events (snd (aenter c)) = []" "io_events (snd (aexit c)) = []"
  by (simp_all add: aenter_events aexit_events)

lemma known_scan: "device s = Some d \<Longrightarrow> fst (ensure_scan K s) = Inr d"
  by (simp add: ensure_scan_known)

lemma refresh_keeps:
  assumes "fst (ensure_scan K s) = Inr d"
  shows "device (snd (refresh_data K s)) = Some d"
    and "auto_refresh (snd (refresh_data K s)) = auto_refresh s"
    and "feed (snd (refresh_data K s)) = tl (feed s)"
    and "clock (snd (refresh_data K s)) = clock s"
    and "clock_reads (snd (refresh_data K s)) = clock_reads s"
proof -
  obtain sc a where eq:
    "refresh_data K s = refresh_data K (s\<lparr>scanner := sc, device := Some d, address := a\<rparr>)"
    using refresh_scanned [OF assms] by blast
  show "device (snd (refresh_data K s)) = Some d" unfolding eq
    by (subst refresh_closed [where d = d])
       (simp_all add: Let_def assign_status_def split: list.splits sum.splits)
  show "auto_refresh (snd (refresh_data K s)) = auto_refresh s" unfolding eq
    by (subst refresh_closed [where d = d])
       (simp_all add: Let_def assign_status_def split: list.splits sum.splits)
  show "feed (snd (refresh_data K s)) = tl (feed s)" unfolding eq
    by (subst refresh_closed [where d = d])
       (simp_all add: Let_def assign_status_def split: list.splits sum.splits)
  show "clock (snd (refresh_data K s)) = clock s" unfolding eq
    by (subst refresh_closed [where d = d])
       (simp_all add: Let_def assign_status_def split: list.splits sum.splits)
  show "clock_reads (snd (refresh_data K s)) = clock_reads s" unfolding eq
    by (subst refresh_closed [where d = d])
       (simp_all add: Let_def assign_status_def split: list.splits sum.splits)
qed

lemma refresh_brightness_color:
  assumes "fst (ensure_scan K s) = Inr d" "feed s = Inr raw # rest" "well_formed K raw"
  shows "brightness (snd (refresh_data K s)) = Some (uint (raw ! 9))"
    and "color (snd (refresh_data K s)) = Some (uint (raw ! 6), uint (raw ! 7), uint (raw ! 8))"
    and "sound (snd (refresh_data K s)) = Some (uint (raw ! 11))"
    and "volume (snd (refresh_data K s)) = Some (uint (raw ! 12))"
  using refresh_well_formed(2) [OF assms] by (simp_all add: snapshot_def)

lemma refresh_io:
  assumes "fst (ensure_scan K s) = Inr d"
  shows "io_events (trace (snd (refresh_data K s))) = io_events (trace s) @ [Read]"
  by (simp add: refresh_trace [OF assms])

lemma send_auto_result:
  assumes "fst (ensure_scan K s) = Inr d" "auto_refresh s"
  shows "trace (snd (send_command K cmd s)) =
           trace s @ snd (aenter (the_client s)) @ [Write cmd, Sleep 250, Read]"
    and "priv_client (snd (send_command K cmd s)) =
           Some ((fst (aenter (the_client s)))\<lparr>was_open := True\<rparr>)"
    and "fst (send_command K cmd s) =
           (case feed s of
              [] \<Rightarrow> Inl BleakError
            | Inl e # _ \<Rightarrow> Inl e
            | Inr raw # _ \<Rightarrow> map_sum id (\<lambda>_. ()) (decode_status K raw))"
    and "snapshot (snd (send_command K cmd s)) =
           (case feed s of
              Inr raw # _ \<Rightarrow>
                (case decode_status K raw of Inl e \<Rightarrow> snapshot s | Inr st \<Rightarrow> status_snapshot st)
            | _ \<Rightarrow> snapshot s)"
proof -
  obtain sc a where eq:
    "send_command K cmd s = send_command K cmd (s\<lparr>scanner := sc, device := Some d, address := a\<rparr>)"
    using send_scanned [OF assms(1)] by blast
  show "trace (snd (send_command K cmd s)) =
           trace s @ snd (aenter (the_client s)) @ [Write cmd, Sleep 250, Read]"
    unfolding eq using assms(2)
    by (subst send_auto [where d = d])
       (simp_all add: Let_def assign_status_def split: list.splits sum.splits)
  show "priv_client (snd (send_command K cmd s)) =
           Some ((fst (aenter (the_client s)))\<lparr>was_open := True\<rparr>)"
    unfolding eq using assms(2)
    by (subst send_auto [where d = d])
       (simp_all add: Let_def assign_status_def split: list.splits sum.splits)
  show "fst (send_command K cmd s) =
           (case feed s of
              [] \<Rightarrow> Inl BleakError
            | Inl e # _ \<Rightarrow> Inl e
            | Inr raw # _ \<Rightarrow> map_sum id (\<lambda>_. ()) (decode_status K raw))"
    unfolding eq using assms(2)
    by (subst send_auto [where d = d])
       (simp_all add: Let_def split: list.splits sum.splits)
  show "snapshot (snd (send_command K cmd s)) =
           (case feed s of
              Inr raw # _ \<Rightarrow>
                (case decode_status K raw of Inl e \<Rightarrow> snapshot s | Inr st \<Rightarrow> status_snapshot st)
            | _ \<Rightarrow> snapshot s)"
    unfolding eq using assms(2)
    by (subst send_auto [where d = d])
       (simp_all add: Let_def snapshot_assign split: list.splits sum.splits)
qed

lemma send_plain_result:
  assumes "fst (ensure_scan K s) = Inr d" "\<not> auto_refresh s"
  shows "trace (snd (send_command K cmd s)) =
           trace s @ snd (aenter (the_client s)) @ [Write cmd]
             @ snd (aexit (fst (aenter (the_client s))))"
    and "priv_client (snd (send_command K cmd s)) =
           Some (fst (aexit (fst (aenter (the_client s)))))"
    and "fst (send_command K cmd s) = Inr ()"
    and "snapshot (snd (send_command K cmd s)) = snapshot s"
    and "feed (snd (send_command K cmd s)) = feed s"
proof -
  obtain sc a where eq:
    "send_command K cmd s = send_command K cmd (s\<lparr>scanner := sc, device := Some d, address := a\<rparr>)"
    using send_scanned [OF assms(1)] by blast
  show "trace (snd (send_command K cmd s)) =
           trace s @ snd (aenter (the_client s)) @ [Write cmd]
             @ snd (aexit (fst (aenter (the_client s))))"
    unfolding eq using assms(2) by (subst send_no_refresh [where d = d]) simp_all
  show "priv_client (snd (send_command K cmd s)) =
           Some (fst (aexit (fst (aenter (the_client s)))))"
    unfolding eq using assms(2) by (subst send_no_refresh [where d = d]) simp_all
  show "fst (send_command K cmd s) = Inr ()"
    unfolding eq using assms(2) by (subst send_no_refresh [where d = d]) simp_all
  show "snapshot (snd (send_command K cmd s)) = snapshot s"
    unfolding eq using assms(2) by (subst send_no_refresh [where d = d]) simp_all
  show "feed (snd (send_command K cmd s)) = feed s"
    unfolding eq using assms(2) by (subst send_no_refresh [where d = d]) simp_all
qed

lemma send_keeps_snapshot:
  assumes "\<not> (auto_refresh s \<and> fst (send_command K cmd s) = Inr ())"
  shows "snapshot (snd (send_command K cmd s)) = snapshot s"
proof (cases "fst (ensure_scan K s)")
  case (Inl e)
  have "snd (send_command K cmd s) = snd (ensure_scan K s)"
    using Inl by (cases "ensure_scan K s") (simp add: send_command_def)
  moreover have "snapshot (snd (ensure_scan K s)) = snapshot s"
    by (simp add: ensure_scan_def scan_closed split: option.splits)
  ultimately show ?thesis by simp
next
  case (Inr d)
  show ?thesis
  proof (cases "auto_refresh s")
    case True
    then have "fst (send_command K cmd s) \<noteq> Inr ()" using assms by simp
    then show ?thesis
      unfolding send_auto_result(3) [OF Inr True] send_auto_result(4) [OF Inr True]
      by (auto split: list.splits sum.splits)
  next
    case False
    then show ?thesis by (rule send_plain_result(4) [OF Inr])
  qed
qed

lemma send_io:
  assumes "fst (ensure_scan K s) = Inr d"
  shows "io_events (trace (snd (send_command K cmd s))) =
           io_events (trace s) @ [Write cmd] @ (if auto_refresh s then [Read] else [])"
proof (cases "auto_refresh s")
  case True
  then show ?thesis by (simp add: send_auto_result(1) [OF assms True])
next
  case False
  then show ?thesis by (simp add: send_plain_result(1) [OF assms False])
qed

subsection \<open>The setters\<close>

lemma set_color_closed:
  assumes "fst (ensure_scan K s) = Inr d" "feed s = Inr raw # rest" "well_formed K raw"
  shows "set_color K r g b s =
           send_command K (''SC'' @ format_02x r @ format_02x g @ format_02x b @ hex2 (raw ! 9))
             ((snd (refresh_data K s))\<lparr>color := Some (r, g, b)\<rparr>)"
proof -
  obtain u s1 where rd: "refresh_data K s = (u, s1)" by (cases "refresh_data K s")
  have "u = Inr ()" using refresh_well_formed(1) [OF assms] rd by simp
  moreover have "brightness s1 = Some (uint (raw ! 9))"
    using refresh_brightness_color(1) [OF assms] rd by simp
  ultimately show ?thesis
    by (simp add: set_color_def rd format_02x_byte)
qed

lemma set_brightness_closed:
  assumes "fst (ensure_scan K s) = Inr d" "feed s = Inr raw # rest" "well_formed K raw"
  shows "set_brightness K br s =
           send_command K (''SC'' @ hex2 (raw ! 6) @ hex2 (raw ! 7) @ hex2 (raw ! 8) @ format_02x br)
             ((snd (refresh_data K s))\<lparr>brightness := Some br\<rparr>)"
proof -
  obtain u s1 where rd: "refresh_data K s = (u, s1)" by (cases "refresh_data K s")
  have "u = Inr ()" using refresh_well_formed(1) [OF assms] rd by simp
  moreover have "color s1 = Some (uint (raw ! 6), uint (raw ! 7), uint (raw ! 8))"
    using refresh_brightness_color(2) [OF assms] rd by simp
  ultimately show ?thesis
    by (simp add: set_brightness_def rd format_02x_byte)
qed

lemma format_10_20_30: "format_02x 10 @ format_02x 20 @ format_02x 30 = ''0a141e''"
  by (simp add: format_02x_def hex_digits.simps hexdigit_def)

lemma set_time_closed:
  "set_time K None s =
     send_command K (strftime_ST (clock s (clock_reads s + 1)))
       (s\<lparr>time := Some (Naive (clock s (clock_reads s))), clock_reads := clock_reads s + 2\<rparr>)"
  "set_time K (Some t) s =
     send_command K (strftime_ST (clock s (clock_reads s)))
       (s\<lparr>time := Some t, clock_reads := clock_reads s + 1\<rparr>)"
  by (simp_all add: set_time_def now_def Let_def)

subsection \<open>The example values\<close>

lemma example_session_fields:
  "device (example_session a fd) = Some example_device"
  "priv_client (example_session a fd) = None"
  "feed (example_session a fd) = fd"
  "trace (example_session a fd) = []"
  "auto_refresh (example_session a fd) = a"
  "clock (example_session a fd) = example_clock"
  "clock_reads (example_session a fd) = 0"
  "snapshot (example_session a fd) = (None, None, None, None, None, None)"
  by (simp_all add: example_session_def init_def example_world_def Let_def snapshot_def)

lemma example_scan: "fst (ensure_scan K (example_session a fd)) = Inr example_device"
  by (simp add: ensure_scan_known [OF example_session_fields(1)])

lemma example_well_formed: "well_formed example_constants (example_buffer b)"
  by (simp add: well_formed_def example_buffer_def example_constants_def)

lemma example_the_client:
  "the_client (example_session a fd) = \<lparr>is_connected = False, was_open = False\<rparr>"
  by (simp add: the_client_def example_session_fields)

lemma addressed_session_fields:
  "device (addressed_session a devs) = None"
  "address (addressed_session a devs) = Some a"
  "scanner (addressed_session a devs) = None"
  "radio (addressed_session a devs) = devs"
  by (simp_all add: addressed_session_def init_def example_world_def Let_def)

lemma scanning_session_fields:
  "device (scanning_session devs) = None"
  "address (scanning_session devs) = None"
  "scanner (scanning_session devs) = None"
  "radio (scanning_session devs) = devs"
  by (simp_all add: scanning_session_def init_def example_world_def Let_def)

lemma hex2_100: "hex2 100 = ''64''" "hex2 2 = ''02''" "hex2 32 = ''20''"
  by (simp_all add: hex2_def hexdigit_def)

section \<open>The claims\<close>

text \<open>
  Claim C1, the power flag. The claim reads line 137 as: power is off only when both of
  the two most significant bits of byte 14 are set, so that the flags bytes
  \<^verbatim>\<open>0b01000000\<close> and \<^verbatim>\<open>0b10000000\<close> mean on. The code computes
  \<^verbatim>\<open>not bool(0b11000000 & byte14)\<close>: with the flags byte \<^verbatim>\<open>0b01000000\<close> a refresh
  leaves the power attribute \<^verbatim>\<open>False\<close>.
\<close>

theorem power_flag_decode_counterexample:
  "example_buffer 0x40 ! 14 = 0x40
   \<and> power_flag (snd (refresh_data example_constants
                       (example_session False [Inr (example_buffer 0x40)]))) = Some False"
proof -
  have f: "feed (example_session False [Inr (example_buffer 0x40)]) = Inr (example_buffer 0x40) # []"
    by (simp add: example_session_fields)
  show ?thesis
    using refresh_well_formed(2) [OF example_scan f example_well_formed]
    by (simp add: snapshot_def example_buffer_def)
qed

text \<open>
  Claim C1 as the code has it: after a refresh that read a well-formed buffer, the power
  attribute is \<^verbatim>\<open>True\<close> exactly when both of the two most significant bits of byte 14
  are clear, so it is \<^verbatim>\<open>False\<close> as soon as one of them is set. Byte 14 equal to
  \<^verbatim>\<open>0b11000000\<close>, \<^verbatim>\<open>0b01000000\<close> or \<^verbatim>\<open>0b10000000\<close> gives \<^verbatim>\<open>False\<close>, and
  \<^verbatim>\<open>0b00000000\<close> gives \<^verbatim>\<open>True\<close>.
\<close>

theorem power_flag_decode:
  assumes "fst (ensure_scan K s) = Inr d" "feed s = Inr raw # rest" "well_formed K raw"
  shows "power_flag (snd (refresh_data K s)) = Some (raw ! 14 AND 0xC0 = 0)
    \<and> (raw ! 14 = 0xC0 \<or> raw ! 14 = 0x40 \<or> raw ! 14 = 0x80
          \<longrightarrow> power_flag (snd (refresh_data K s)) = Some False)
    \<and> (raw ! 14 = 0 \<longrightarrow> power_flag (snd (refresh_data K s)) = Some True)"
proof -
  have p: "power_flag (snd (refresh_data K s)) = Some (raw ! 14 AND 0xC0 = 0)"
    using refresh_well_formed(2) [OF assms] by (simp add: snapshot_def)
  show ?thesis unfolding p by auto
qed

text \<open>The statement of C1 at the flags bytes \<^verbatim>\<open>0b10000000\<close> and \<^verbatim>\<open>0b00000000\<close>.\<close>

theorem power_flag_decode_witness:
  "power_flag (snd (refresh_data example_constants
                    (example_session False [Inr (example_buffer 0x80)]))) = Some False
   \<and> power_flag (snd (refresh_data example_constants
                    (example_session False [Inr (example_buffer 0)]))) = Some True"
proof -
  have f1: "feed (example_session False [Inr (example_buffer 0x80)]) = Inr (example_buffer 0x80) # []"
    and f2: "feed (example_session False [Inr (example_buffer 0)]) = Inr (example_buffer 0) # []"
    by (simp_all add: example_session_fields)
  show ?thesis
    using power_flag_decode [OF example_scan f1 example_well_formed]
      power_flag_decode [OF example_scan f2 example_well_formed]
    by (simp add: example_buffer_def)
qed

text \<open>
  Claim C2, the guard leaves the connection as it found it. The code does not: the flag
  \<^verbatim>\<open>was_open\<close> lives on the cached client, \<^verbatim>\<open>__aenter__\<close> never clears it, and the
  assignment of line 28 sits in the branch where the flag is already \<^verbatim>\<open>False\<close>. On a
  session just constructed with a device and with automatic refresh, \<^verbatim>\<open>power_on\<close>
  connects, writes, sleeps and reads; the refresh inside the guard finds the connection
  open and sets the flag, and the outer guard then leaves without disconnecting. The
  session was not connected before the call and is connected after it. The last conjunct
  is the guard alone on a client that is not connected and whose flag is set.
\<close>

theorem guard_leaves_connection_open:
  "\<not> session_is_connected (example_session True [Inr (example_buffer 0)])
   \<and> trace (snd (power_on example_constants (example_session True [Inr (example_buffer 0)]))) =
       [Connect, Write ''SI01'', Sleep 250, Read]
   \<and> session_is_connected
       (snd (power_on example_constants (example_session True [Inr (example_buffer 0)])))
   \<and> fst (aexit (fst (aenter \<lparr>is_connected = False, was_open = True\<rparr>))) =
       \<lparr>is_connected = True, was_open = True\<rparr>"
proof -
  let ?s = "(example_session True [Inr (example_buffer 0)])\<lparr>power_flag := Some True\<rparr>"
  have sc: "fst (ensure_scan example_constants ?s) = Inr example_device"
    by (simp add: known_scan example_session_fields)
  have au: "auto_refresh ?s" by (simp add: example_session_fields)
  have tc: "the_client ?s = \<lparr>is_connected = False, was_open = False\<rparr>"
    by (simp add: example_the_client)
  have si: "format_02x 1 = ''01''" by (simp add: format_02x_def hex_digits.simps hexdigit_def)
  have p: "power_on example_constants (example_session True [Inr (example_buffer 0)]) =
             send_command example_constants ''SI01'' ?s"
    by (simp add: power_on_def si)
  show ?thesis
    unfolding p
    by (simp add: session_is_connected_def send_auto_result(1,2) [OF sc au] example_the_client
        example_session_fields aenter_def aexit_def client_connect_def)
qed

text \<open>
  Claim C3, decode or fail atomically. Take a well-formed buffer and a session whose scan
  succeeds. When the next reply is that buffer with one of the three marker bytes (offsets
  5, 10, 13) changed, the refresh raises \<^verbatim>\<open>AssertionError\<close> (the specification's
  \<^verbatim>\<open>ProtocolFormatError\<close>) and the six status attributes are what they were. When the
  next reply is that buffer with byte 11 replaced by a value outside the sound
  enumeration, the refresh raises \<^verbatim>\<open>ValueError\<close> (the specification's
  \<^verbatim>\<open>UnknownSoundMode\<close>) and the six status attributes are what they were.
\<close>

theorem atomic_decode_or_fail:
  assumes "fst (ensure_scan K s) = Inr d" "well_formed K raw"
  shows "((i = 5 \<or> i = 10 \<or> i = 13) \<and> v \<noteq> raw ! i \<and> feed s = Inr (raw[i := v]) # rest
            \<longrightarrow> fst (refresh_data K s) = Inl AssertionError
                \<and> snapshot (snd (refresh_data K s)) = snapshot s)
    \<and> (uint v \<notin> set (sound_values K) \<and> feed s = Inr (raw[11 := v]) # rest
            \<longrightarrow> fst (refresh_data K s) = Inl ValueError
                \<and> snapshot (snd (refresh_data K s)) = snapshot s)"
proof (intro conjI impI)
  assume h: "(i = 5 \<or> i = 10 \<or> i = 13) \<and> v \<noteq> raw ! i \<and> feed s = Inr (raw[i := v]) # rest"
  then have dec: "decode_status K (raw[i := v]) = Inl AssertionError"
    using decode_bad_marker [OF assms(2)] by blast
  show r: "fst (refresh_data K s) = Inl AssertionError"
    using h by (simp add: refresh_fst [OF assms(1)] dec)
  show "snapshot (snd (refresh_data K s)) = snapshot s"
    using r by (rule refresh_fail_snapshot)
next
  assume h: "uint v \<notin> set (sound_values K) \<and> feed s = Inr (raw[11 := v]) # rest"
  then have dec: "decode_status K (raw[11 := v]) = Inl ValueError"
    using decode_bad_sound [OF assms(2)] by blast
  show r: "fst (refresh_data K s) = Inl ValueError"
    using h by (simp add: refresh_fst [OF assms(1)] dec)
  show "snapshot (snd (refresh_data K s)) = snapshot s"
    using r by (rule refresh_fail_snapshot)
qed

text \<open>The statement of C3 on the example buffer with byte 5 set to 0, and with byte 11
  set to 1.\<close>

theorem atomic_decode_or_fail_witness:
  "fst (refresh_data example_constants
          (example_session False [Inr ((example_buffer 0)[5 := 0])])) = Inl AssertionError
   \<and> snapshot (snd (refresh_data example_constants
          (example_session False [Inr ((example_buffer 0)[5 := 0])]))) =
       (None, None, None, None, None, None)
   \<and> fst (refresh_data example_constants
          (example_session False [Inr ((example_buffer 0)[11 := 1])])) = Inl ValueError
   \<and> snapshot (snd (refresh_data example_constants
          (example_session False [Inr ((example_buffer 0)[11 := 1])]))) =
       (None, None, None, None, None, None)"
proof -
  have a: "(5 = (5::nat) \<or> 5 = (10::nat) \<or> 5 = (13::nat)) \<and> (0::byte) \<noteq> example_buffer 0 ! 5
     \<and> feed (example_session False [Inr ((example_buffer 0)[5 := 0])]) =
          Inr ((example_buffer 0)[5 := 0]) # []"
    by (simp add: example_session_fields example_buffer_def)
  have b: "uint (1::byte) \<notin> set (sound_values example_constants)
     \<and> feed (example_session False [Inr ((example_buffer 0)[11 := 1])]) =
          Inr ((example_buffer 0)[11 := 1]) # []"
    by (simp add: example_session_fields example_constants_def)
  show ?thesis
    using atomic_decode_or_fail [OF example_scan example_well_formed, THEN conjunct1,
        rule_format, OF a]
      atomic_decode_or_fail [OF example_scan example_well_formed, THEN conjunct2,
        rule_format, OF b]
    by (simp add: example_session_fields)
qed

text \<open>
  Claim C4, refresh before compose. When the scan succeeds and the next reply is a
  well-formed buffer, \<^verbatim>\<open>set_color(10, 20, 30)\<close> first reads that buffer and then writes
  \<^verbatim>\<open>SC0a141e\<close> followed by the two hexadecimal digits of its byte 9, the brightness just
  read; \<^verbatim>\<open>set_color(r, g, b)\<close> does so with the formatted \<open>r\<close>, \<open>g\<close> and \<open>b\<close>; and
  \<^verbatim>\<open>set_brightness\<close> first reads the buffer and then writes \<^verbatim>\<open>SC\<close>, the digits of its
  bytes 6, 7 and 8 and the formatted new brightness. The only read or write that follows
  is the read of the automatic refresh, when it is enabled. The format \<^verbatim>\<open>{:02x}\<close> writes
  the digits in lowercase; the command codec of the specification takes hexadecimal digits
  in either case, and up to the case of letters the command of \<^verbatim>\<open>set_color(10, 20, 30)\<close>
  is \<^verbatim>\<open>SC0A141E\<close> followed by the brightness.
\<close>

theorem refresh_before_compose:
  assumes "fst (ensure_scan K s) = Inr d" "feed s = Inr raw # rest" "well_formed K raw"
  shows "io_events (trace (snd (set_color K 10 20 30 s))) =
           io_events (trace s) @ [Read, Write (''SC0a141e'' @ hex2 (raw ! 9))]
             @ (if auto_refresh s then [Read] else [])
       \<and> io_events (trace (snd (set_color K r g b s))) =
           io_events (trace s)
             @ [Read, Write (''SC'' @ format_02x r @ format_02x g @ format_02x b @ hex2 (raw ! 9))]
             @ (if auto_refresh s then [Read] else [])
       \<and> io_events (trace (snd (set_brightness K br s))) =
           io_events (trace s)
             @ [Read, Write (''SC'' @ hex2 (raw ! 6) @ hex2 (raw ! 7) @ hex2 (raw ! 8)
                              @ format_02x br)]
             @ (if auto_refresh s then [Read] else [])
       \<and> str_upper (''SC0a141e'' @ hex2 (raw ! 9)) = ''SC0A141E'' @ str_upper (hex2 (raw ! 9))"
proof -
  let ?s1 = "snd (refresh_data K s)"
  have dev: "device ?s1 = Some d" by (rule refresh_keeps(1) [OF assms(1)])
  have au: "auto_refresh ?s1 = auto_refresh s" by (rule refresh_keeps(2) [OF assms(1)])
  have io: "io_events (trace ?s1) = io_events (trace s) @ [Read]" by (rule refresh_io [OF assms(1)])
  have col: "\<And>r g b. io_events (trace (snd (set_color K r g b s))) =
           io_events (trace s)
             @ [Read, Write (''SC'' @ format_02x r @ format_02x g @ format_02x b @ hex2 (raw ! 9))]
             @ (if auto_refresh s then [Read] else [])"
  proof -
    fix r g b
    have sc: "fst (ensure_scan K (?s1\<lparr>color := Some (r, g, b)\<rparr>)) = Inr d"
      using dev by (simp add: known_scan)
    show "io_events (trace (snd (set_color K r g b s))) =
           io_events (trace s)
             @ [Read, Write (''SC'' @ format_02x r @ format_02x g @ format_02x b @ hex2 (raw ! 9))]
             @ (if auto_refresh s then [Read] else [])"
      unfolding set_color_closed [OF assms] send_io [OF sc] using io au by simp
  qed
  have bri: "io_events (trace (snd (set_brightness K br s))) =
           io_events (trace s)
             @ [Read, Write (''SC'' @ hex2 (raw ! 6) @ hex2 (raw ! 7) @ hex2 (raw ! 8)
                              @ format_02x br)]
             @ (if auto_refresh s then [Read] else [])"
  proof -
    have sc: "fst (ensure_scan K (?s1\<lparr>brightness := Some br\<rparr>)) = Inr d"
      using dev by (simp add: known_scan)
    show ?thesis
      unfolding set_brightness_closed [OF assms] send_io [OF sc] using io au by simp
  qed
  have ten: "io_events (trace (snd (set_color K 10 20 30 s))) =
           io_events (trace s) @ [Read, Write (''SC0a141e'' @ hex2 (raw ! 9))]
             @ (if auto_refresh s then [Read] else [])"
    using col [of 10 20 30] format_10_20_30 by simp
  have up: "str_upper (''SC0a141e'' @ hex2 (raw ! 9)) = ''SC0A141E'' @ str_upper (hex2 (raw ! 9))"
    by (simp add: str_upper_def ascii_upper_def)
  show ?thesis using ten col bri up by blast
qed

text \<open>The statement of C4 on the example buffer, whose brightness byte is \<^verbatim>\<open>0x64\<close>.\<close>

theorem refresh_before_compose_witness:
  "io_events (trace (snd (set_color example_constants 10 20 30
       (example_session True [Inr (example_buffer 0), Inr (example_buffer 0)])))) =
     [Read, Write ''SC0a141e64'', Read]
   \<and> io_events (trace (snd (set_brightness example_constants 255
       (example_session True [Inr (example_buffer 0), Inr (example_buffer 0)])))) =
     [Read, Write ''SC0a141eff'', Read]
   \<and> str_upper ''SC0a141e64'' = ''SC0A141E64''"
proof -
  have f: "feed (example_session True [Inr (example_buffer 0), Inr (example_buffer 0)]) =
             Inr (example_buffer 0) # [Inr (example_buffer 0)]"
    by (simp add: example_session_fields)
  have h: "hex2 10 = ''0a''" "hex2 20 = ''14''" "hex2 30 = ''1e''" "format_02x 255 = ''ff''"
    by (simp_all add: hex2_def hexdigit_def format_02x_def hex_digits.simps)
  have u: "str_upper ''64'' = ''64''" by (simp add: str_upper_def ascii_upper_def)
  show ?thesis
    using refresh_before_compose [OF example_scan f example_well_formed, where br = 255
        and r = 10 and g = 20 and b = 30]
    by (simp add: example_session_fields example_buffer_def hex2_100 h u)
qed

text \<open>
  Claim C5, the automatic refresh of \<^verbatim>\<open>_send_command\<close>. When the scan succeeds: with
  automatic refresh, the call connects if the session was not connected, writes the
  command, sleeps 250 milliseconds and reads the status exactly once, and when that reply
  decodes, the call succeeds and the six status attributes are those of the decoded reply,
  whatever they were before; without automatic refresh, the call succeeds, nothing is read
  after the write, the replies still to come are untouched and the six status attributes
  are unchanged.
\<close>

theorem auto_refresh_policy:
  assumes "fst (ensure_scan K s) = Inr d"
  shows "(auto_refresh s \<longrightarrow>
            trace (snd (send_command K cmd s)) =
              trace s @ (if session_is_connected s then [] else [Connect])
                @ [Write cmd, Sleep 250, Read]
            \<and> (\<forall>raw rest st. feed s = Inr raw # rest \<and> decode_status K raw = Inr st \<longrightarrow>
                  fst (send_command K cmd s) = Inr ()
                  \<and> snapshot (snd (send_command K cmd s)) = status_snapshot st))
       \<and> (\<not> auto_refresh s \<longrightarrow>
            fst (send_command K cmd s) = Inr ()
            \<and> trace (snd (send_command K cmd s)) =
                trace s @ (if session_is_connected s then [] else [Connect]) @ [Write cmd]
                  @ (if session_is_connected s \<or> was_open (the_client s) then []
                     else [Disconnect])
            \<and> feed (snd (send_command K cmd s)) = feed s
            \<and> snapshot (snd (send_command K cmd s)) = snapshot s)"
proof (intro conjI impI allI)
  assume a: "auto_refresh s"
  show "trace (snd (send_command K cmd s)) =
          trace s @ (if session_is_connected s then [] else [Connect]) @ [Write cmd, Sleep 250, Read]"
    by (simp add: send_auto_result(1) [OF assms a] aenter_events session_is_connected_the_client)
  fix raw rest st
  assume h: "feed s = Inr raw # rest \<and> decode_status K raw = Inr st"
  show "fst (send_command K cmd s) = Inr ()"
    using h by (simp add: send_auto_result(3) [OF assms a])
  show "snapshot (snd (send_command K cmd s)) = status_snapshot st"
    using h by (simp add: send_auto_result(4) [OF assms a])
next
  assume n: "\<not> auto_refresh s"
  show "fst (send_command K cmd s) = Inr ()" by (rule send_plain_result(3) [OF assms n])
  show "trace (snd (send_command K cmd s)) =
          trace s @ (if session_is_connected s then [] else [Connect]) @ [Write cmd]
            @ (if session_is_connected s \<or> was_open (the_client s) then [] else [Disconnect])"
    by (simp add: send_plain_result(1) [OF assms n] aenter_events aexit_events
        session_is_connected_the_client)
  show "feed (snd (send_command K cmd s)) = feed s" by (rule send_plain_result(5) [OF assms n])
  show "snapshot (snd (send_command K cmd s)) = snapshot s"
    by (rule send_plain_result(4) [OF assms n])
qed

text \<open>The statement of C5 on a session whose power attribute was set to \<^verbatim>\<open>True\<close> and
  whose device reports the flags byte \<^verbatim>\<open>0b11000000\<close>, and on a session without automatic
  refresh.\<close>

theorem auto_refresh_policy_witness:
  "trace (snd (send_command example_constants ''SI00''
                 ((example_session True [Inr (example_buffer 0xC0)])\<lparr>power_flag := Some True\<rparr>))) =
     [Connect, Write ''SI00'', Sleep 250, Read]
   \<and> power_flag (snd (send_command example_constants ''SI00''
                 ((example_session True [Inr (example_buffer 0xC0)])\<lparr>power_flag := Some True\<rparr>))) =
     Some False
   \<and> trace (snd (send_command example_constants ''SI00''
                 (example_session False [Inr (example_buffer 0)]))) =
     [Connect, Write ''SI00'', Disconnect]
   \<and> feed (snd (send_command example_constants ''SI00''
                 (example_session False [Inr (example_buffer 0)]))) = [Inr (example_buffer 0)]"
proof -
  let ?A = "(example_session True [Inr (example_buffer 0xC0)])\<lparr>power_flag := Some True\<rparr>"
  let ?B = "example_session False [Inr (example_buffer 0)]"
  have scA: "fst (ensure_scan example_constants ?A) = Inr example_device"
    by (simp add: known_scan example_session_fields)
  have auA: "auto_refresh ?A" by (simp add: example_session_fields)
  have cA: "\<not> session_is_connected ?A"
    by (simp add: session_is_connected_def example_session_fields)
  have dA: "feed ?A = Inr (example_buffer 0xC0) # []
            \<and> decode_status example_constants (example_buffer 0xC0) =
                Inr \<lparr>st_timestamp = from_bytes (take 4 (drop 1 (example_buffer 0xC0))),
                     st_red = uint (example_buffer 0xC0 ! 6),
                     st_green = uint (example_buffer 0xC0 ! 7),
                     st_blue = uint (example_buffer 0xC0 ! 8),
                     st_brightness = uint (example_buffer 0xC0 ! 9),
                     st_sound = uint (example_buffer 0xC0 ! 11),
                     st_volume = uint (example_buffer 0xC0 ! 12),
                     st_power = (example_buffer 0xC0 ! 14 AND 0xC0 = 0)\<rparr>"
    by (simp add: example_session_fields decode_well_formed [OF example_well_formed])
  have auB: "\<not> auto_refresh ?B" by (simp add: example_session_fields)
  have cB: "\<not> session_is_connected ?B \<and> \<not> was_open (the_client ?B)"
    by (simp add: session_is_connected_def example_session_fields example_the_client)
  have a: "trace (snd (send_command example_constants ''SI00'' ?A)) =
             trace ?A @ [Connect] @ [Write ''SI00'', Sleep 250, Read]"
    using auto_refresh_policy [OF scA, THEN conjunct1, rule_format, OF auA, THEN conjunct1] cA
    by simp
  have b: "snapshot (snd (send_command example_constants ''SI00'' ?A)) =
             status_snapshot \<lparr>st_timestamp = from_bytes (take 4 (drop 1 (example_buffer 0xC0))),
                     st_red = uint (example_buffer 0xC0 ! 6),
                     st_green = uint (example_buffer 0xC0 ! 7),
                     st_blue = uint (example_buffer 0xC0 ! 8),
                     st_brightness = uint (example_buffer 0xC0 ! 9),
                     st_sound = uint (example_buffer 0xC0 ! 11),
                     st_volume = uint (example_buffer 0xC0 ! 12),
                     st_power = (example_buffer 0xC0 ! 14 AND 0xC0 = 0)\<rparr>"
    using auto_refresh_policy [OF scA, THEN conjunct1, rule_format, OF auA, THEN conjunct2,
        rule_format, OF dA] by simp
  have c: "trace (snd (send_command example_constants ''SI00'' ?B)) =
             trace ?B @ [Connect] @ [Write ''SI00''] @ [Disconnect]
           \<and> feed (snd (send_command example_constants ''SI00'' ?B)) = feed ?B"
    using auto_refresh_policy [OF example_scan, THEN conjunct2, rule_format, OF auB] cB by simp
  have p: "power_flag (snd (send_command example_constants ''SI00'' ?A)) = Some False"
    using b by (simp add: snapshot_def status_snapshot_def example_buffer_def)
  show ?thesis using a p c by (simp add: example_session_fields)
qed

text \<open>
  Claim C6, the layout of the status buffer. When the scan succeeds and the next reply is
  a well-formed buffer, the refresh succeeds; the time is the timestamp whose seconds are
  the big-endian unsigned number in bytes 1 to 4; red, green and blue are bytes 6, 7 and
  8; the brightness is byte 9; the sound identifier is byte 11; the volume is byte 12.
\<close>

theorem status_decode_layout:
  assumes "fst (ensure_scan K s) = Inr d" "feed s = Inr raw # rest" "well_formed K raw"
  shows "fst (refresh_data K s) = Inr ()
    \<and> time (snd (refresh_data K s)) =
        Some (FromTimestamp (16777216 * unat (raw ! 1) + 65536 * unat (raw ! 2)
                               + 256 * unat (raw ! 3) + unat (raw ! 4)))
    \<and> color (snd (refresh_data K s)) = Some (uint (raw ! 6), uint (raw ! 7), uint (raw ! 8))
    \<and> brightness (snd (refresh_data K s)) = Some (uint (raw ! 9))
    \<and> sound (snd (refresh_data K s)) = Some (uint (raw ! 11))
    \<and> volume (snd (refresh_data K s)) = Some (uint (raw ! 12))"
  using refresh_well_formed [OF assms] by (simp add: snapshot_def)

text \<open>The statement of C6 on the example buffer.\<close>

theorem status_decode_layout_witness:
  "fst (refresh_data example_constants (example_session False [Inr (example_buffer 0)])) = Inr ()
   \<and> snapshot (snd (refresh_data example_constants
                      (example_session False [Inr (example_buffer 0)]))) =
       (Some (FromTimestamp 1698898176), Some (10, 20, 30), Some 100, Some 2, Some 32, Some True)"
proof -
  have f: "feed (example_session False [Inr (example_buffer 0)]) = Inr (example_buffer 0) # []"
    by (simp add: example_session_fields)
  have p: "power_flag (snd (refresh_data example_constants
                    (example_session False [Inr (example_buffer 0)]))) = Some True"
    using refresh_well_formed(2) [OF example_scan f example_well_formed]
    by (simp add: snapshot_def example_buffer_def)
  show ?thesis
    using status_decode_layout [OF example_scan f example_well_formed] p
    by (simp add: example_buffer_def snapshot_def)
qed

text \<open>
  Claim C7, decoding a field and encoding it again. After a refresh that read a
  well-formed buffer, the sound attribute is byte 11 and the volume attribute is byte 12;
  \<^verbatim>\<open>set_sound\<close> of that sound writes \<^verbatim>\<open>SN\<close> followed by the two hexadecimal digits of
  byte 11, and \<^verbatim>\<open>set_volume\<close> of that volume writes \<^verbatim>\<open>SV\<close> followed by the two
  hexadecimal digits of byte 12.
\<close>

theorem field_round_trip:
  assumes "fst (ensure_scan K s) = Inr d" "feed s = Inr raw # rest" "well_formed K raw"
  shows "sound (snd (refresh_data K s)) = Some (uint (raw ! 11))
       \<and> volume (snd (refresh_data K s)) = Some (uint (raw ! 12))
       \<and> io_events (trace (snd (set_sound K (uint (raw ! 11)) (snd (refresh_data K s))))) =
           io_events (trace (snd (refresh_data K s))) @ [Write (''SN'' @ hex2 (raw ! 11))]
             @ (if auto_refresh s then [Read] else [])
       \<and> io_events (trace (snd (set_volume K (uint (raw ! 12)) (snd (refresh_data K s))))) =
           io_events (trace (snd (refresh_data K s))) @ [Write (''SV'' @ hex2 (raw ! 12))]
             @ (if auto_refresh s then [Read] else [])"
proof -
  let ?s1 = "snd (refresh_data K s)"
  have dev: "device ?s1 = Some d" by (rule refresh_keeps(1) [OF assms(1)])
  have au: "auto_refresh ?s1 = auto_refresh s" by (rule refresh_keeps(2) [OF assms(1)])
  have sc1: "fst (ensure_scan K (?s1\<lparr>sound := Some (uint (raw ! 11))\<rparr>)) = Inr d"
    using dev by (simp add: known_scan)
  have sc2: "fst (ensure_scan K (?s1\<lparr>volume := Some (uint (raw ! 12))\<rparr>)) = Inr d"
    using dev by (simp add: known_scan)
  have a: "io_events (trace (snd (set_sound K (uint (raw ! 11)) ?s1))) =
           io_events (trace ?s1) @ [Write (''SN'' @ hex2 (raw ! 11))]
             @ (if auto_refresh s then [Read] else [])"
    unfolding set_sound_def Let_def send_io [OF sc1] using au by (simp add: format_02x_byte)
  have b: "io_events (trace (snd (set_volume K (uint (raw ! 12)) ?s1))) =
           io_events (trace ?s1) @ [Write (''SV'' @ hex2 (raw ! 12))]
             @ (if auto_refresh s then [Read] else [])"
    unfolding set_volume_def Let_def send_io [OF sc2] using au by (simp add: format_02x_byte)
  show ?thesis
    using refresh_brightness_color(3,4) [OF assms] a b by simp
qed

text \<open>The statement of C7 on the example buffer: sound 2 and volume \<^verbatim>\<open>0x20\<close>.\<close>

theorem field_round_trip_witness:
  "io_events (trace (snd (set_sound example_constants 2
       (snd (refresh_data example_constants (example_session False [Inr (example_buffer 0)])))))) =
     [Read, Write ''SN02'']
   \<and> io_events (trace (snd (set_volume example_constants 32
       (snd (refresh_data example_constants (example_session False [Inr (example_buffer 0)])))))) =
     [Read, Write ''SV20'']"
proof -
  let ?s = "example_session False [Inr (example_buffer 0)]"
  have f: "feed ?s = Inr (example_buffer 0) # []" by (simp add: example_session_fields)
  have io: "io_events (trace (snd (refresh_data example_constants ?s))) = [Read]"
    by (simp add: refresh_io [OF example_scan] example_session_fields)
  show ?thesis
    using field_round_trip [OF example_scan f example_well_formed] io
    by (simp add: example_buffer_def hex2_100 example_session_fields)
qed

text \<open>
  Claim C8, a failed scan. When no discovered device matches (by address, the case of
  letters ignored as the scanner does, when the session has a non-empty address; by the
  manufacturer identifier otherwise), \<^verbatim>\<open>scan\<close> raises \<^verbatim>\<open>RuntimeError\<close> (the
  specification's \<^verbatim>\<open>DeviceNotFound\<close>); that is the only way it fails, and a failed scan
  leaves the device and the address of the session as they were; the device or the
  address changes only when the scan returns a device.
\<close>

theorem scan_failure_keeps_identity:
  "(no_match K s \<longrightarrow> fst (scan K s) = Inl RuntimeError)
   \<and> (\<forall>e. fst (scan K s) = Inl e \<longrightarrow>
          e = RuntimeError \<and> no_match K s
          \<and> device (snd (scan K s)) = device s \<and> address (snd (scan K s)) = address s)
   \<and> (device (snd (scan K s)) \<noteq> device s \<or> address (snd (scan K s)) \<noteq> address s
        \<longrightarrow> (\<exists>dv. fst (scan K s) = Inr dv))"
proof (intro conjI allI impI)
  assume "no_match K s"
  then show "fst (scan K s) = Inl RuntimeError" by (simp add: scan_fails_iff)
next
  fix e assume e: "fst (scan K s) = Inl e"
  then show "e = RuntimeError" by (rule scan_error)
  with e show "no_match K s" by (simp add: scan_fails_iff)
  from e show "device (snd (scan K s)) = device s" by (simp add: scan_fail_identity)
  from e show "address (snd (scan K s)) = address s" by (simp add: scan_fail_identity)
next
  assume ch: "device (snd (scan K s)) \<noteq> device s \<or> address (snd (scan K s)) \<noteq> address s"
  show "\<exists>dv. fst (scan K s) = Inr dv"
  proof (cases "fst (scan K s)")
    case (Inl e)
    then show ?thesis using ch scan_fail_identity [of K s e] by simp
  next
    case (Inr dv)
    then show ?thesis by blast
  qed
qed

text \<open>The statement of C8 on a scan by manufacturer identifier that sees only a foreign
  device and on one that also sees the example device, and on a scan by address for an
  address that no device has and for the address of the example device written in
  lowercase, which the scan finds and replaces by the device's own spelling.\<close>

theorem scan_failure_keeps_identity_witness:
  "fst (scan example_constants (scanning_session [other_device])) = Inl RuntimeError
   \<and> device (snd (scan example_constants (scanning_session [other_device]))) = None
   \<and> address (snd (scan example_constants (scanning_session [other_device]))) = None
   \<and> fst (scan example_constants (scanning_session [other_device, example_device])) =
       Inr example_device
   \<and> fst (scan example_constants (addressed_session ''aa:bc'' [other_device, example_device])) =
       Inl RuntimeError
   \<and> device (snd (scan example_constants
                    (addressed_session ''aa:bc'' [other_device, example_device]))) = None
   \<and> address (snd (scan example_constants
                    (addressed_session ''aa:bc'' [other_device, example_device]))) = Some ''aa:bc''
   \<and> fst (scan example_constants (addressed_session ''aa:bb'' [other_device, example_device])) =
       Inr example_device
   \<and> address (snd (scan example_constants
                    (addressed_session ''aa:bb'' [other_device, example_device]))) = Some ''AA:BB''"
proof -
  let ?A = "scanning_session [other_device]"
  let ?B = "scanning_session [other_device, example_device]"
  let ?C = "addressed_session ''aa:bc'' [other_device, example_device]"
  let ?D = "addressed_session ''aa:bb'' [other_device, example_device]"
  have nm: "no_match example_constants ?A"
    by (simp add: no_match_def visible_def scanning_session_fields other_device_def
        example_constants_def)
  have fB: "scan_found example_constants ?B = Some example_device"
    by (simp add: scan_found_def visible_def scanning_session_fields other_device_def
        example_device_def example_constants_def find_device_by_filter_def)
  have ch: "device (snd (scan example_constants ?B)) \<noteq> device ?B
            \<or> address (snd (scan example_constants ?B)) \<noteq> address ?B"
    by (simp add: scan_closed fB scanning_session_fields)
  have a: "fst (scan example_constants ?A) = Inl RuntimeError"
    using scan_failure_keeps_identity [of example_constants ?A] nm by blast
  have b: "device (snd (scan example_constants ?A)) = device ?A
           \<and> address (snd (scan example_constants ?A)) = address ?A"
    using scan_failure_keeps_identity [of example_constants ?A] a by blast
  have c: "\<exists>dv. fst (scan example_constants ?B) = Inr dv"
    using scan_failure_keeps_identity [of example_constants ?B] ch by blast
  then have c': "fst (scan example_constants ?B) = Inr example_device"
    by (simp add: scan_closed fB)
  have nmC: "no_match example_constants ?C"
    by (simp add: no_match_def visible_def addressed_session_fields other_device_def
        example_device_def str_lower_def ascii_lower_def)
  have e: "fst (scan example_constants ?C) = Inl RuntimeError"
    using scan_failure_keeps_identity [of example_constants ?C] nmC by blast
  have f: "device (snd (scan example_constants ?C)) = device ?C
           \<and> address (snd (scan example_constants ?C)) = address ?C"
    using scan_failure_keeps_identity [of example_constants ?C] e by blast
  have fD: "scan_found example_constants ?D = Some example_device"
    by (simp add: scan_found_def visible_def addressed_session_fields other_device_def
        example_device_def find_device_by_address_def str_lower_def ascii_lower_def)
  have chD: "device (snd (scan example_constants ?D)) \<noteq> device ?D
            \<or> address (snd (scan example_constants ?D)) \<noteq> address ?D"
    by (simp add: scan_closed fD addressed_session_fields)
  have g: "\<exists>dv. fst (scan example_constants ?D) = Inr dv"
    using scan_failure_keeps_identity [of example_constants ?D] chD by blast
  then have g1: "fst (scan example_constants ?D) = Inr example_device"
    by (simp add: scan_closed fD)
  have g2: "address (snd (scan example_constants ?D)) = Some (dev_address example_device)"
    by (simp add: scan_closed fD)
  have g': "fst (scan example_constants ?D) = Inr example_device
                 \<and> address (snd (scan example_constants ?D)) = Some ''AA:BB''"
    using g1 g2 by (simp add: example_device_def)
  show ?thesis using a b c' e f g'
    by (simp add: scanning_session_fields addressed_session_fields)
qed

text \<open>
  Claim C9, the flag \<^verbatim>\<open>was_open\<close> is sticky. Once the flag is set, entering and leaving
  the guard keep it set and leaving issues no disconnect. So on a session whose cached
  client has the flag set, a refresh and a command each end with the flag set and the
  connection open, also when the guard itself connected; and a command with automatic
  refresh always ends with the flag set and the connection open, since its refresh
  enters the guard again on the same client while the connection is held open.
\<close>

theorem was_open_sticky:
  "(was_open c \<longrightarrow> was_open (fst (aenter c)) \<and> was_open (fst (aexit c)) \<and> snd (aexit c) = [])
   \<and> (fst (ensure_scan K s) = Inr d \<and> priv_client s = Some c \<and> was_open c \<longrightarrow>
        (\<exists>c'. priv_client (snd (refresh_data K s)) = Some c' \<and> was_open c' \<and> is_connected c')
        \<and> trace (snd (refresh_data K s)) =
            trace s @ (if is_connected c then [] else [Connect]) @ [Read]
        \<and> (\<exists>c'. priv_client (snd (send_command K cmd s)) = Some c' \<and> was_open c'
               \<and> is_connected c')
        \<and> Disconnect \<notin> set (drop (length (trace s)) (trace (snd (send_command K cmd s)))))
   \<and> (fst (ensure_scan K s) = Inr d \<and> auto_refresh s \<longrightarrow>
        (\<exists>c'. priv_client (snd (send_command K cmd s)) = Some c' \<and> was_open c'
               \<and> is_connected c'))"
proof (intro conjI impI)
  assume "was_open c"
  then show "was_open (fst (aenter c))" "was_open (fst (aexit c))" "snd (aexit c) = []"
    by (simp_all add: aexit_events)
next
  assume h: "fst (ensure_scan K s) = Inr d \<and> priv_client s = Some c \<and> was_open c"
  then have sc: "fst (ensure_scan K s) = Inr d" and tc: "the_client s = c" and wo: "was_open c"
    by (simp_all add: the_client_def)
  show "\<exists>c'. priv_client (snd (refresh_data K s)) = Some c' \<and> was_open c' \<and> is_connected c'"
    using wo by (simp add: refresh_client [OF sc] tc)
  show "trace (snd (refresh_data K s)) = trace s @ (if is_connected c then [] else [Connect]) @ [Read]"
    using wo by (simp add: refresh_trace [OF sc] tc aenter_events aexit_events)
  show "\<exists>c'. priv_client (snd (send_command K cmd s)) = Some c' \<and> was_open c' \<and> is_connected c'"
  proof (cases "auto_refresh s")
    case True
    then show ?thesis by (simp add: send_auto_result(2) [OF sc True])
  next
    case False
    then show ?thesis using wo by (simp add: send_plain_result(2) [OF sc False] tc)
  qed
  show "Disconnect \<notin> set (drop (length (trace s)) (trace (snd (send_command K cmd s))))"
  proof (cases "auto_refresh s")
    case True
    then show ?thesis by (simp add: send_auto_result(1) [OF sc True] aenter_events)
  next
    case False
    then show ?thesis using wo
      by (simp add: send_plain_result(1) [OF sc False] tc aenter_events aexit_events)
  qed
next
  assume h: "fst (ensure_scan K s) = Inr d \<and> auto_refresh s"
  then show "\<exists>c'. priv_client (snd (send_command K cmd s)) = Some c' \<and> was_open c' \<and> is_connected c'"
    by (simp add: send_auto_result(2) [of K s d])
qed

text \<open>The statement of C9 on a client that is not connected and has the flag set, and on
  a new session with automatic refresh.\<close>

theorem was_open_sticky_witness:
  "trace (snd (refresh_data example_constants
       ((example_session False [Inr (example_buffer 0)])
          \<lparr>priv_client := Some \<lparr>is_connected = False, was_open = True\<rparr>\<rparr>))) = [Connect, Read]
   \<and> session_is_connected (snd (refresh_data example_constants
       ((example_session False [Inr (example_buffer 0)])
          \<lparr>priv_client := Some \<lparr>is_connected = False, was_open = True\<rparr>\<rparr>)))
   \<and> session_is_connected (snd (send_command example_constants ''SI01''
       (example_session True [Inr (example_buffer 0)])))"
proof -
  let ?W = "(example_session False [Inr (example_buffer 0)])
              \<lparr>priv_client := Some \<lparr>is_connected = False, was_open = True\<rparr>\<rparr>"
  let ?N = "example_session True [Inr (example_buffer 0)]"
  have hW: "fst (ensure_scan example_constants ?W) = Inr example_device
            \<and> priv_client ?W = Some \<lparr>is_connected = False, was_open = True\<rparr>
            \<and> was_open \<lparr>is_connected = False, was_open = True\<rparr>"
    by (simp add: known_scan example_session_fields)
  have hN: "fst (ensure_scan example_constants ?N) = Inr example_device \<and> auto_refresh ?N"
    by (simp add: example_scan example_session_fields)
  have a: "(\<exists>c'. priv_client (snd (refresh_data example_constants ?W)) = Some c' \<and> was_open c'
                \<and> is_connected c')
           \<and> trace (snd (refresh_data example_constants ?W)) =
               trace ?W @ (if is_connected \<lparr>is_connected = False, was_open = True\<rparr> then []
                           else [Connect]) @ [Read]"
    using was_open_sticky [THEN conjunct2, THEN conjunct1, rule_format, OF hW] by blast
  have b: "\<exists>c'. priv_client (snd (send_command example_constants ''SI01'' ?N)) = Some c'
                \<and> was_open c' \<and> is_connected c'"
    using was_open_sticky [THEN conjunct2, THEN conjunct2, rule_format, OF hN] by blast
  show ?thesis using a b by (auto simp: session_is_connected_def example_session_fields)
qed

text \<open>
  Claim C10, \<^verbatim>\<open>set_time\<close> does not encode its argument. When the scan succeeds, the
  command written is the clock reading taken on line 200, formatted as \<^verbatim>\<open>ST\<close>, the year,
  month, day, hour, minute and second, and \<^verbatim>\<open>U\<close>, whatever \<open>new_time\<close> is (a missing
  \<open>new_time\<close> only costs one earlier clock reading). \<open>new_time\<close> goes to the time
  attribute only: the call is \<^verbatim>\<open>_send_command\<close> of that command on the session whose
  time attribute holds \<open>new_time\<close> (the first clock reading when it is missing), and
  after the call the time attribute still holds it, with or without automatic refresh,
  unless the automatic refresh succeeded, in which case the attribute holds the time the
  device reported.
\<close>

theorem set_time_ignores_new_time:
  assumes "fst (ensure_scan K s) = Inr d"
  shows "io_events (trace (snd (set_time K new_time s))) =
           io_events (trace s)
             @ [Write (strftime_ST (clock s (clock_reads s
                                      + (case new_time of None \<Rightarrow> 1 | Some _ \<Rightarrow> 0))))]
             @ (if auto_refresh s then [Read] else [])
       \<and> strftime_ST dt =
           ''ST'' @ zero_pad 4 (year dt) @ zero_pad 2 (month dt) @ zero_pad 2 (day dt)
             @ zero_pad 2 (hour dt) @ zero_pad 2 (minute dt) @ zero_pad 2 (second dt) @ ''U''
       \<and> (\<not> auto_refresh s \<longrightarrow> time (snd (set_time K (Some t) s)) = Some t)
       \<and> set_time K (Some t) s =
           send_command K (strftime_ST (clock s (clock_reads s)))
             (s\<lparr>time := Some t, clock_reads := clock_reads s + 1\<rparr>)
       \<and> set_time K None s =
           send_command K (strftime_ST (clock s (clock_reads s + 1)))
             (s\<lparr>time := Some (Naive (clock s (clock_reads s))),
                clock_reads := clock_reads s + 2\<rparr>)
       \<and> (\<not> (auto_refresh s \<and> fst (set_time K new_time s) = Inr ()) \<longrightarrow>
            time (snd (set_time K new_time s)) =
              Some (case new_time of None \<Rightarrow> Naive (clock s (clock_reads s)) | Some t' \<Rightarrow> t'))
       \<and> (auto_refresh s \<and> fst (set_time K new_time s) = Inr () \<longrightarrow>
            (\<exists>raw rest st. feed s = Inr raw # rest \<and> decode_status K raw = Inr st
               \<and> time (snd (set_time K new_time s)) = Some (FromTimestamp (st_timestamp st))))"
proof (intro conjI impI)
  show "io_events (trace (snd (set_time K new_time s))) =
           io_events (trace s)
             @ [Write (strftime_ST (clock s (clock_reads s
                                      + (case new_time of None \<Rightarrow> 1 | Some _ \<Rightarrow> 0))))]
             @ (if auto_refresh s then [Read] else [])"
  proof (cases new_time)
    case None
    have sc: "fst (ensure_scan K (s\<lparr>time := Some (Naive (clock s (clock_reads s))),
                 clock_reads := clock_reads s + 2\<rparr>)) = Inr d"
      using assms ensure_scan_cong [of "s\<lparr>time := Some (Naive (clock s (clock_reads s))),
                 clock_reads := clock_reads s + 2\<rparr>" s K] by simp
    show ?thesis unfolding None set_time_closed send_io [OF sc] by simp
  next
    case (Some t')
    have sc: "fst (ensure_scan K (s\<lparr>time := Some t', clock_reads := clock_reads s + 1\<rparr>)) = Inr d"
      using assms ensure_scan_cong [of "s\<lparr>time := Some t', clock_reads := clock_reads s + 1\<rparr>" s K]
      by simp
    show ?thesis unfolding Some set_time_closed send_io [OF sc] by simp
  qed
  show "strftime_ST dt =
           ''ST'' @ zero_pad 4 (year dt) @ zero_pad 2 (month dt) @ zero_pad 2 (day dt)
             @ zero_pad 2 (hour dt) @ zero_pad 2 (minute dt) @ zero_pad 2 (second dt) @ ''U''"
    by (simp add: strftime_ST_def)
  show "set_time K (Some t) s =
           send_command K (strftime_ST (clock s (clock_reads s)))
             (s\<lparr>time := Some t, clock_reads := clock_reads s + 1\<rparr>)"
    by (rule set_time_closed(2))
  show "set_time K None s =
           send_command K (strftime_ST (clock s (clock_reads s + 1)))
             (s\<lparr>time := Some (Naive (clock s (clock_reads s))),
                clock_reads := clock_reads s + 2\<rparr>)"
    by (rule set_time_closed(1))
next
  assume n: "\<not> auto_refresh s"
  have "\<not> (auto_refresh (s\<lparr>time := Some t, clock_reads := clock_reads s + 1\<rparr>)
            \<and> fst (send_command K (strftime_ST (clock s (clock_reads s)))
                      (s\<lparr>time := Some t, clock_reads := clock_reads s + 1\<rparr>)) = Inr ())"
    using n by simp
  then have "snapshot (snd (set_time K (Some t) s)) =
          snapshot (s\<lparr>time := Some t, clock_reads := clock_reads s + 1\<rparr>)"
    unfolding set_time_closed by (rule send_keeps_snapshot)
  then show "time (snd (set_time K (Some t) s)) = Some t" by (simp add: snapshot_def)
next
  assume h: "\<not> (auto_refresh s \<and> fst (set_time K new_time s) = Inr ())"
  show "time (snd (set_time K new_time s)) =
          Some (case new_time of None \<Rightarrow> Naive (clock s (clock_reads s)) | Some t' \<Rightarrow> t')"
  proof (cases new_time)
    case None
    let ?s2 = "s\<lparr>time := Some (Naive (clock s (clock_reads s))), clock_reads := clock_reads s + 2\<rparr>"
    have "\<not> (auto_refresh ?s2
              \<and> fst (send_command K (strftime_ST (clock s (clock_reads s + 1))) ?s2) = Inr ())"
      using h unfolding None set_time_closed by simp
    then have "snapshot (snd (set_time K None s)) = snapshot ?s2"
      unfolding set_time_closed by (rule send_keeps_snapshot)
    then show ?thesis unfolding None by (simp add: snapshot_def)
  next
    case (Some t')
    let ?s2 = "s\<lparr>time := Some t', clock_reads := clock_reads s + 1\<rparr>"
    have "\<not> (auto_refresh ?s2
              \<and> fst (send_command K (strftime_ST (clock s (clock_reads s))) ?s2) = Inr ())"
      using h unfolding Some set_time_closed by simp
    then have "snapshot (snd (set_time K (Some t') s)) = snapshot ?s2"
      unfolding set_time_closed by (rule send_keeps_snapshot)
    then show ?thesis unfolding Some by (simp add: snapshot_def)
  qed
next
  assume h: "auto_refresh s \<and> fst (set_time K new_time s) = Inr ()"
  obtain cmd s2 where st: "set_time K new_time s = send_command K cmd s2"
    and s2: "auto_refresh s2 = auto_refresh s" "feed s2 = feed s"
            "fst (ensure_scan K s2) = fst (ensure_scan K s)"
  proof (cases new_time)
    case None
    let ?s2 = "s\<lparr>time := Some (Naive (clock s (clock_reads s))), clock_reads := clock_reads s + 2\<rparr>"
    have e: "fst (ensure_scan K ?s2) = fst (ensure_scan K s)"
      by (rule ensure_scan_cong) simp_all
    have "set_time K new_time s = send_command K (strftime_ST (clock s (clock_reads s + 1))) ?s2"
      unfolding None by (rule set_time_closed(1))
    moreover have "auto_refresh ?s2 = auto_refresh s" "feed ?s2 = feed s" by simp_all
    ultimately show ?thesis using e by (rule that)
  next
    case (Some t')
    let ?s2 = "s\<lparr>time := Some t', clock_reads := clock_reads s + 1\<rparr>"
    have e: "fst (ensure_scan K ?s2) = fst (ensure_scan K s)"
      by (rule ensure_scan_cong) simp_all
    have "set_time K new_time s = send_command K (strftime_ST (clock s (clock_reads s))) ?s2"
      unfolding Some by (rule set_time_closed(2))
    moreover have "auto_refresh ?s2 = auto_refresh s" "feed ?s2 = feed s" by simp_all
    ultimately show ?thesis using e by (rule that)
  qed
  have sc: "fst (ensure_scan K s2) = Inr d" using assms s2(3) by simp
  have au: "auto_refresh s2" using h s2(1) by simp
  have ok: "fst (send_command K cmd s2) = Inr ()" using h st by simp
  have r: "(case feed s of
              [] \<Rightarrow> Inl BleakError
            | Inl e # _ \<Rightarrow> Inl e
            | Inr raw # _ \<Rightarrow> map_sum id (\<lambda>_. ()) (decode_status K raw)) = Inr ()"
    using ok unfolding send_auto_result(3) [OF sc au] s2(2) .
  then obtain raw rest where fd: "feed s = Inr raw # rest"
    and m: "map_sum id (\<lambda>_. ()) (decode_status K raw) = Inr ()"
    by (auto split: list.splits sum.splits)
  obtain st' where dc: "decode_status K raw = Inr st'"
    using m by (cases "decode_status K raw") auto
  have "snapshot (snd (send_command K cmd s2)) = status_snapshot st'"
    unfolding send_auto_result(4) [OF sc au] s2(2) by (simp add: fd dc)
  then have "time (snd (set_time K new_time s)) = Some (FromTimestamp (st_timestamp st'))"
    unfolding st by (simp add: snapshot_def status_snapshot_def)
  then show "\<exists>raw rest st. feed s = Inr raw # rest \<and> decode_status K raw = Inr st
               \<and> time (snd (set_time K new_time s)) = Some (FromTimestamp (st_timestamp st))"
    using fd dc by blast
qed

text \<open>The statement of C10 with \<open>new_time\<close> the epoch, without automatic refresh and
  with an automatic refresh that fails: the command carries the clock's 2026-11-04
  07:05:00 and the time attribute holds the epoch.\<close>

theorem set_time_ignores_new_time_witness:
  "io_events (trace (snd (set_time example_constants (Some (FromTimestamp 0))
                            (example_session False [])))) = [Write ''ST20261104070500U'']
   \<and> time (snd (set_time example_constants (Some (FromTimestamp 0))
                  (example_session False []))) = Some (FromTimestamp 0)
   \<and> io_events (trace (snd (set_time example_constants (Some (FromTimestamp 0))
                            (example_session True [])))) = [Write ''ST20261104070500U'', Read]
   \<and> fst (set_time example_constants (Some (FromTimestamp 0)) (example_session True [])) =
       Inl BleakError
   \<and> time (snd (set_time example_constants (Some (FromTimestamp 0))
                  (example_session True []))) = Some (FromTimestamp 0)"
proof -
  let ?F = "example_session False []"
  let ?T = "example_session True []"
  let ?t = "FromTimestamp 0"
  have n: "\<not> auto_refresh ?F" by (simp add: example_session_fields)
  have scF: "fst (ensure_scan example_constants ?F) = Inr example_device" by (rule example_scan)
  have scT: "fst (ensure_scan example_constants ?T) = Inr example_device" by (rule example_scan)
  let ?s2 = "?T\<lparr>time := Some ?t, clock_reads := clock_reads ?T + 1\<rparr>"
  have sc2: "fst (ensure_scan example_constants ?s2) = Inr example_device"
    by (simp add: known_scan example_session_fields)
  have au2: "auto_refresh ?s2" by (simp add: example_session_fields)
  have fd2: "feed ?s2 = []" by (simp add: example_session_fields)
  have fl: "fst (set_time example_constants (Some ?t) ?T) = Inl BleakError"
    unfolding set_time_closed send_auto_result(3) [OF sc2 au2] fd2 by simp
  then have nok: "\<not> (auto_refresh ?T \<and> fst (set_time example_constants (Some ?t) ?T) = Inr ())"
    by simp
  have z: "zero_pad 4 2026 = ''2026''" "zero_pad 2 11 = ''11''" "zero_pad 2 4 = ''04''"
    "zero_pad 2 7 = ''07''" "zero_pad 2 5 = ''05''" "zero_pad 2 0 = ''00''"
    by (simp_all add: zero_pad_def dec_digits.simps)
  have cmd: "strftime_ST (example_clock 0) = ''ST20261104070500U''"
    using set_time_ignores_new_time [OF scF, where dt = "example_clock 0",
        THEN conjunct2, THEN conjunct1]
    by (simp add: example_clock_def z)
  have a: "io_events (trace (snd (set_time example_constants (Some ?t) ?F))) =
             [Write ''ST20261104070500U'']"
    using set_time_ignores_new_time [OF scF, where new_time = "Some ?t", THEN conjunct1] n cmd
    by (simp add: example_session_fields)
  have b: "time (snd (set_time example_constants (Some ?t) ?F)) = Some ?t"
    using set_time_ignores_new_time [OF scF, where t = ?t,
        THEN conjunct2, THEN conjunct2, THEN conjunct1] n
    by blast
  have c: "io_events (trace (snd (set_time example_constants (Some ?t) ?T))) =
             [Write ''ST20261104070500U'', Read]"
    using set_time_ignores_new_time [OF scT, where new_time = "Some ?t", THEN conjunct1] cmd
    by (simp add: example_session_fields)
  have d: "time (snd (set_time example_constants (Some ?t) ?T)) = Some ?t"
    using set_time_ignores_new_time [OF scT, where new_time = "Some ?t",
        THEN conjunct2, THEN conjunct2, THEN conjunct2, THEN conjunct2, THEN conjunct2,
        THEN conjunct1] nok
    by simp
  show ?thesis using a b c fl d by blast
qed

end
